theory Spec2Isabelle
  imports Complex_Main "HOL-Library.Word"
begin

section \<open>The cellular-automaton layer (game layer)\<close>

text \<open>
  The board is the global \<^verbatim>\<open>int board[row][col]\<close> with \<^verbatim>\<open>row = col = 50\<close>. It is
  modelled as a function from the two indices to the stored \<^verbatim>\<open>int\<close>; only the window
  \<open>0 \<le> i < row\<close>, \<open>0 \<le> j < col\<close> is the array, and the code below reads a neighbour
  only behind its range check.
\<close>

type_synonym board = "int \<Rightarrow> int \<Rightarrow> int"

definition row :: int where
  "row = 50"

definition col :: int where
  "col = 50"

datatype error = AssertionFailed

text \<open>The body of the two nested loops of \<^verbatim>\<open>is_cell_alive\<close>, for one offset \<open>(x, y)\<close>.\<close>

definition neighbour_step :: "board \<Rightarrow> int \<Rightarrow> int \<Rightarrow> int \<Rightarrow> int \<Rightarrow> int \<Rightarrow> int" where
  "neighbour_step b i j x y live =
     (if x = 0 \<and> y = 0 then live
      else (let ni = x + i; nj = y + j in
            if ni \<ge> 0 \<and> ni < row \<and> nj \<ge> 0 \<and> nj < col \<and> b ni nj = 1
            then live + 1 else live))"

text \<open>\<^verbatim>\<open>for (x = -1; x <= 1; x++) for (y = -1; y <= 1; y++)\<close>, starting from \<open>live = 0\<close>.\<close>

definition count_live :: "board \<Rightarrow> int \<Rightarrow> int \<Rightarrow> int" where
  "count_live b i j =
     foldl (\<lambda>live x. foldl (\<lambda>live' y. neighbour_step b i j x y live') live [-1, 0, 1])
       0 [-1, 0, 1]"

text \<open>
  \<^verbatim>\<open>is_cell_alive(i, j)\<close>: the assertion \<^verbatim>\<open>HYP_ASSERT(i < row && j < col)\<close> is the
  error branch; \<^verbatim>\<open>bool(board[i][j])\<close> is \<open>b i j \<noteq> 0\<close>.
\<close>

definition is_cell_alive :: "board \<Rightarrow> int \<Rightarrow> int \<Rightarrow> error + bool" where
  "is_cell_alive b i j =
     (if \<not> (i < row \<and> j < col) then Inl AssertionFailed
      else (let live = count_live b i j; is_alive = (b i j \<noteq> 0) in
            if is_alive then
              (if live < 2 then Inr False
               else if live = 2 \<or> live = 3 then Inr True
               else Inr False)
            else if live = 3 then Inr True
            else Inr False))"

text \<open>
  The number of live neighbours, stated independently of the loops: the eight cells
  around \<open>(i, j)\<close>, each counted when it lies on the board and holds 1.
\<close>

definition live_at :: "board \<Rightarrow> int \<Rightarrow> int \<Rightarrow> int" where
  "live_at b ni nj = (if 0 \<le> ni \<and> ni < row \<and> 0 \<le> nj \<and> nj < col \<and> b ni nj = 1 then 1 else 0)"

definition live_neighbours :: "board \<Rightarrow> int \<Rightarrow> int \<Rightarrow> int" where
  "live_neighbours b i j =
     live_at b (i - 1) (j - 1) + live_at b (i - 1) j + live_at b (i - 1) (j + 1) +
     live_at b i (j - 1) + live_at b i (j + 1) +
     live_at b (i + 1) (j - 1) + live_at b (i + 1) j + live_at b (i + 1) (j + 1)"

text \<open>A concrete board: a vertical blinker in column 1 and a filled 3x3 block further away.\<close>

definition demo_board :: board where
  "demo_board i j =
     (if (j = 1 \<and> (i = 0 \<or> i = 1 \<or> i = 2)) \<or> (10 \<le> i \<and> i \<le> 12 \<and> 10 \<le> j \<and> j \<le> 12)
      then 1 else 0)"

section \<open>The batched 2D renderer: data\<close>

text \<open>
  Vectors carry their components as reals: floating-point rounding is not modelled, and
  no property below depends on a component's value. Matrices stay symbolic: one supplied
  by the caller is \<open>Mat4\<close> with its sixteen entries, and \<^verbatim>\<open>glm::translate\<close> and
  \<^verbatim>\<open>glm::scale\<close> are constructors.
\<close>

type_synonym vec2 = "real \<times> real"
type_synonym vec3 = "real \<times> real \<times> real"
type_synonym vec4 = "real \<times> real \<times> real \<times> real"

datatype mat4 = Mat4 "real list" | Identity | Translate mat4 vec3 | Scale mat4 vec3

text \<open>
  Modelled from the spec: \<^verbatim>\<open>hyp::Texture2D\<close> and its \<^verbatim>\<open>operator==\<close> are declared outside
  the sources. The spec gives the texture an identity-equality comparison, so a texture is
  its identity and \<^verbatim>\<open>*a == *b\<close> is equality of identities. A \<^verbatim>\<open>hyp::Ref<Texture2D>\<close> is
  a \<open>Texture2D option\<close>, \<open>None\<close> being the null reference.
\<close>

datatype Texture2D = Texture2D nat

text \<open>
  Modelled from the spec: \<^verbatim>\<open>hyp::Light\<close> is declared outside the sources; the spec
  describes it as an opaque descriptor of position, color and intensity.
\<close>

datatype Light = Light vec3 vec4 real

text \<open>
  \<^verbatim>\<open>float textureIndex\<close> of a quad vertex holds a slot index (0 to 31) and is a natural
  number here.
\<close>

record QuadVertex =
  qv_pos :: vec3
  qv_color :: vec4
  qv_uv :: vec2
  qv_transformIndex :: int
  qv_textureIndex :: nat

record LineVertex =
  lv_position :: vec3
  lv_color :: vec4

text \<open>
  \<open>cv_worldPosition\<close> is the product \<^verbatim>\<open>transform * vertexPos[i]\<close>, kept as its two factors.
\<close>

record CircleVertex =
  cv_worldPosition :: "mat4 \<times> vec4"
  cv_localPosition :: vec3
  cv_color :: vec4
  cv_thickness :: real
  cv_fade :: real

text \<open>
  The device facade is an external collaborator. Its calls made while a scene is built
  and flushed are recorded, in order, in a trace that the renderer state carries.
\<close>

datatype DeviceCmd =
    CameraSetData mat4
  | TextureSetData Texture2D "32 word"
  | QuadVboSetData "QuadVertex list"
  | QuadUniformSetData "mat4 list"
  | QuadProgramUse
  | QuadSetBool string bool
  | QuadSetInt string int
  | LightsSetData "Light list"
  | TextureBind "Texture2D option" nat
  | QuadDrawIndexed "32 word"
  | LineVaoBind
  | LineVboSetData "LineVertex list"
  | LineProgramUse
  | DrawLines nat
  | CircleVboSetData "CircleVertex list"
  | CircleProgramUse
  | CircleDrawIndexed "32 word"

text \<open>
  Modelled from the spec: \<^verbatim>\<open>Renderer2D::Stats\<close> is declared outside the sources. The
  spec lists its counters as \<open>drawCalls\<close>, \<open>quadCount\<close> and \<open>lineCount\<close>; they are the
  fields \<open>stats_drawCalls\<close>, \<open>stats_quadCount\<close> and \<open>stats_lineCount\<close> below, natural
  numbers.
\<close>

text \<open>
  \<^verbatim>\<open>RendererData\<close> with its members \<^verbatim>\<open>quad\<close>, \<^verbatim>\<open>line\<close>, \<^verbatim>\<open>circle\<close>, \<^verbatim>\<open>lighting\<close> and
  \<^verbatim>\<open>stats\<close> flattened into one record, each field prefixed by its struct. The
  \<^verbatim>\<open>uint32_t\<close> counters are 32-bit words. \<^verbatim>\<open>int lightCount\<close> is kept as its 32-bit
  pattern, because the one comparison made on it is against an unsigned constant.
  \<^verbatim>\<open>int transformIndexCount\<close> counts the transforms of the batch and is an unbounded
  integer. The fixed arrays \<^verbatim>\<open>textureSlots\<close>, \<^verbatim>\<open>vertexPos\<close> and \<^verbatim>\<open>uvCoords\<close> are
  functions of the index. The code reads \<^verbatim>\<open>textureSlots\<close> below \<^verbatim>\<open>textureSlotIndex\<close>
  and writes it at \<^verbatim>\<open>textureSlotIndex\<close>; the index stays between 1 and
  \<^verbatim>\<open>maxTextureSlots\<close>, and is below it at each write (lemmas \<open>run_slot0\<close> and
  \<open>drawQuadTex_Inr\<close>).
\<close>

record RendererData =
  textureSlots :: "nat \<Rightarrow> Texture2D option"
  defaultTexture :: "Texture2D option"
  textureSlotIndex :: "32 word"
  quad_vertices :: "QuadVertex list"
  quad_transforms :: "mat4 list"
  quad_vertexPos :: "nat \<Rightarrow> vec4"
  quad_uvCoords :: "nat \<Rightarrow> vec2"
  quad_transformIndexCount :: int
  quad_indexCount :: "32 word"
  line_vertices :: "LineVertex list"
  circle_vertices :: "CircleVertex list"
  circle_indexCount :: "32 word"
  lighting_lights :: "Light list"
  lighting_lightCount :: "32 word"
  lighting_enabled :: bool
  cameraBuffer :: mat4
  stats_drawCalls :: nat
  stats_quadCount :: nat
  stats_lineCount :: nat
  device :: "DeviceCmd list"

definition maxLight :: "32 word" where
  "maxLight = 32"

definition maxQuad :: nat where
  "maxQuad = 1000"

definition maxVertices :: nat where
  "maxVertices = maxQuad * 4"

definition maxIndices :: nat where
  "maxIndices = maxQuad * 6"

definition maxTextureSlots :: "32 word" where
  "maxTextureSlots = 32"

section \<open>The batched 2D renderer: operations\<close>

definition quad_reset :: "RendererData \<Rightarrow> RendererData" where
  "quad_reset s = s\<lparr>quad_vertices := [], quad_transforms := [], quad_indexCount := 0,
     quad_transformIndexCount := 0\<rparr>"

definition line_reset :: "RendererData \<Rightarrow> RendererData" where
  "line_reset s = s\<lparr>line_vertices := []\<rparr>"

definition circle_reset :: "RendererData \<Rightarrow> RendererData" where
  "circle_reset s = s\<lparr>circle_vertices := [], circle_indexCount := 0\<rparr>"

text \<open>
  The loop \<^verbatim>\<open>for (i = 0; i < textureSlotIndex; i++) textureSlots[i]->bind(i)\<close> of
  \<^verbatim>\<open>flushQuad\<close>.
\<close>

definition bindTextures :: "RendererData \<Rightarrow> DeviceCmd list" where
  "bindTextures s = map (\<lambda>i. TextureBind (textureSlots s i) i) [0..<unat (textureSlotIndex s)]"

definition flushQuad :: "RendererData \<Rightarrow> RendererData" where
  "flushQuad s =
     (if length (quad_vertices s) = 0 then s
      else s\<lparr>device := device s
                @ [QuadVboSetData (quad_vertices s), QuadUniformSetData (quad_transforms s),
                   QuadProgramUse, QuadSetBool ''enableLighting'' (lighting_enabled s)]
                @ (if lighting_enabled s
                   then [QuadSetInt ''noLights'' (sint (lighting_lightCount s)),
                         LightsSetData (lighting_lights s)]
                   else [QuadSetInt ''noLights'' 0])
                @ bindTextures s
                @ [QuadDrawIndexed (quad_indexCount s)],
              stats_quadCount := stats_quadCount s + length (quad_transforms s),
              stats_drawCalls := stats_drawCalls s + 1\<rparr>)"

definition nextQuadBatch :: "RendererData \<Rightarrow> RendererData" where
  "nextQuadBatch s = (quad_reset (flushQuad s))\<lparr>textureSlotIndex := 1\<rparr>"

text \<open>
  \<^verbatim>\<open>stats.lineCount += float(size) / 2.f\<close>: half the vertex count, the fraction lost when
  the sum is stored back into the counter.
\<close>

definition flushLine :: "RendererData \<Rightarrow> RendererData" where
  "flushLine s =
     (if length (line_vertices s) = 0 then s
      else s\<lparr>device := device s
                @ [LineVaoBind, LineVboSetData (line_vertices s), LineProgramUse,
                   DrawLines (length (line_vertices s))],
              stats_lineCount := stats_lineCount s + length (line_vertices s) div 2,
              stats_drawCalls := stats_drawCalls s + 1\<rparr>)"

definition nextLineBatch :: "RendererData \<Rightarrow> RendererData" where
  "nextLineBatch s = line_reset (flushLine s)"

text \<open>
  \<^verbatim>\<open>flushCircle\<close> tests \<^verbatim>\<open>indexCount\<close>, not the vertex count, and uploads
  \<^verbatim>\<open>(uint32_t)size * sizeof(CircleVertex)\<close> bytes. It does not touch the statistics.
\<close>

definition flushCircle :: "RendererData \<Rightarrow> RendererData" where
  "flushCircle s =
     (if circle_indexCount s = 0 then s
      else s\<lparr>device := device s
                @ [CircleVboSetData
                     (take (length (circle_vertices s) mod 2 ^ 32) (circle_vertices s)),
                   CircleProgramUse, CircleDrawIndexed (circle_indexCount s)]\<rparr>)"

definition flush :: "RendererData \<Rightarrow> RendererData" where
  "flush s = flushCircle (flushLine (flushQuad s))"

definition startBatch :: "RendererData \<Rightarrow> RendererData" where
  "startBatch s =
     (circle_reset (line_reset (quad_reset s)))
       \<lparr>stats_drawCalls := 0, stats_lineCount := 0, stats_quadCount := 0,
        lighting_lights := [], lighting_lightCount := 0, textureSlotIndex := 1\<rparr>"

definition nextBatch :: "RendererData \<Rightarrow> RendererData" where
  "nextBatch s = startBatch (flush s)"

definition beginScene :: "mat4 \<Rightarrow> RendererData \<Rightarrow> RendererData" where
  "beginScene viewProjectionMatrix s =
     (let s1 = startBatch s in
      s1\<lparr>cameraBuffer := viewProjectionMatrix,
         device := device s1 @ [CameraSetData viewProjectionMatrix]\<rparr>)"

definition endScene :: "RendererData \<Rightarrow> RendererData" where
  "endScene s = flush s"

definition enableLighting :: "bool \<Rightarrow> RendererData \<Rightarrow> RendererData" where
  "enableLighting v s = s\<lparr>lighting_enabled := v\<rparr>"

text \<open>
  \<^verbatim>\<open>if (lighting.lightCount >= maxLight) return;\<close> compares an \<^verbatim>\<open>int\<close> with a
  \<^verbatim>\<open>uint32_t\<close>, so both sides are taken as unsigned: the order of 32-bit words.
\<close>

definition addLight :: "Light \<Rightarrow> RendererData \<Rightarrow> RendererData" where
  "addLight light s =
     (if lighting_lightCount s \<ge> maxLight then s
      else s\<lparr>lighting_lights := lighting_lights s @ [light],
              lighting_lightCount := lighting_lightCount s + 1\<rparr>)"

definition vec3_of :: "vec4 \<Rightarrow> vec3" where
  "vec3_of v = (case v of (x, y, z, w) \<Rightarrow> (x, y, z))"

text \<open>
  \<^verbatim>\<open>model = translate(mat4(1), position + vec3(size / 2, 0)); model = scale(model, vec3(size, 0))\<close>.
\<close>

definition quadModel :: "vec3 \<Rightarrow> vec2 \<Rightarrow> mat4" where
  "quadModel position sz =
     (case position of (px, py, pz) \<Rightarrow> case sz of (sx, sy) \<Rightarrow>
        Scale (Translate Identity (px + sx / 2, py + sy / 2, pz + 0)) (sx, sy, 0))"

text \<open>The four vertices that both \<^verbatim>\<open>drawQuad\<close> overloads push, for \<open>i = 0, 1, 2, 3\<close>.\<close>

definition quadCorners :: "RendererData \<Rightarrow> vec4 \<Rightarrow> nat \<Rightarrow> QuadVertex list" where
  "quadCorners s color textureIndex =
     map (\<lambda>i. \<lparr>qv_pos = vec3_of (quad_vertexPos s i), qv_color = color,
               qv_uv = quad_uvCoords s i,
               qv_transformIndex = quad_transformIndexCount s,
               qv_textureIndex = textureIndex\<rparr>) [0..<4]"

definition pushQuad :: "vec3 \<Rightarrow> vec2 \<Rightarrow> vec4 \<Rightarrow> nat \<Rightarrow> RendererData \<Rightarrow> RendererData" where
  "pushQuad position sz color textureIndex s =
     s\<lparr>quad_vertices := quad_vertices s @ quadCorners s color textureIndex,
       quad_transforms := quad_transforms s @ [quadModel position sz],
       quad_transformIndexCount := quad_transformIndexCount s + 1,
       quad_indexCount := quad_indexCount s + 6\<rparr>"

text \<open>The untextured overload: the capacity check comes first, then the quad is pushed
  with texture index 0.\<close>

definition drawQuad :: "vec3 \<Rightarrow> vec2 \<Rightarrow> vec4 \<Rightarrow> RendererData \<Rightarrow> RendererData" where
  "drawQuad position sz color s =
     (let s1 = (if length (quad_transforms s) = maxQuad then nextQuadBatch s else s)
      in pushQuad position sz color 0 s1)"

text \<open>
  The lookup loop of the textured overload,
  \<^verbatim>\<open>for (int i = 1; i < textureSlotIndex; i++) if (*textureSlots[i] == *texture) ...\<close>:
  the texture index found, or 0. The comparison \<^verbatim>\<open>i < textureSlotIndex\<close> is unsigned.
  A null slot (which the source would dereference) compares unequal.
\<close>

function findTexture :: "(nat \<Rightarrow> Texture2D option) \<Rightarrow> 32 word \<Rightarrow> 32 word \<Rightarrow> Texture2D \<Rightarrow> nat" where
  "findTexture slots i n texture =
     (if i < n
      then (if slots (unat i) = Some texture then unat i
            else findTexture slots (i + 1) n texture)
      else 0)"
  by pat_completeness auto
termination
proof (relation "measure (\<lambda>(slots, i, n, texture). unat n - unat i)")
  show "wf (measure (\<lambda>(slots, i, n, texture). unat n - unat i))"
    by simp
next
  fix slots :: "nat \<Rightarrow> Texture2D option" and i n :: "32 word" and texture :: Texture2D
  assume less: "i < n"
  have a: "unat i < unat n"
    using less by (simp add: word_less_nat_alt)
  have "unat n < 2 ^ 32"
    using unsigned_less [of n] by simp
  with a have "unat i + unat (1 :: 32 word) < 2 ^ LENGTH(32)"
    by simp
  then have "unat (i + 1) = unat i + unat (1 :: 32 word)"
    by (simp only: unat_add_lem)
  with a show "((slots, i + 1, n, texture), (slots, i, n, texture))
      \<in> measure (\<lambda>(slots, i, n, texture). unat n - unat i)"
    by simp
qed

declare findTexture.simps [simp del]

text \<open>
  The textured overload. It has no capacity check on the number of quads. When the
  texture is new and the slot table is full, the quad batch is dispatched first. The
  assertion \<^verbatim>\<open>HYP_ASSERT_CORE(textureSlotIndex != maxTextureSlots, ...)\<close> is the error
  branch. \<open>assignSlot\<close> is
  \<^verbatim>\<open>textureSlots[textureSlotIndex] = texture; textureIndex = textureSlotIndex++\<close>, the
  index used for the vertices being the one before the increment.
\<close>

definition assignSlot :: "Texture2D \<Rightarrow> RendererData \<Rightarrow> RendererData" where
  "assignSlot texture s =
     s\<lparr>textureSlots := (textureSlots s)(unat (textureSlotIndex s) := Some texture),
       textureSlotIndex := textureSlotIndex s + 1\<rparr>"

definition drawQuadTex ::
  "vec3 \<Rightarrow> vec2 \<Rightarrow> Texture2D \<Rightarrow> vec4 \<Rightarrow> RendererData \<Rightarrow> error + RendererData" where
  "drawQuadTex position sz texture color s =
     (let textureIndex = findTexture (textureSlots s) 1 (textureSlotIndex s) texture in
      if textureIndex = 0 then
        (let s1 = (if textureSlotIndex s = maxTextureSlots then nextQuadBatch s else s) in
         if textureSlotIndex s1 = maxTextureSlots then Inl AssertionFailed
         else Inr (pushQuad position sz color (unat (textureSlotIndex s1))
                     (assignSlot texture s1)))
      else Inr (pushQuad position sz color textureIndex s))"

text \<open>\<^verbatim>\<open>drawLine\<close> pushes first and tests the capacity afterwards, against \<^verbatim>\<open>maxQuad\<close>.\<close>

definition drawLine :: "vec3 \<Rightarrow> vec3 \<Rightarrow> vec4 \<Rightarrow> RendererData \<Rightarrow> RendererData" where
  "drawLine p1 p2 color s =
     (let s1 = s\<lparr>line_vertices := line_vertices s
                  @ [\<lparr>lv_position = p1, lv_color = color\<rparr>, \<lparr>lv_position = p2, lv_color = color\<rparr>]\<rparr>
      in if length (line_vertices s1) = maxQuad then nextLineBatch s1 else s1)"

definition scale2 :: "vec4 \<Rightarrow> vec3" where
  "scale2 v = (case v of (x, y, z, w) \<Rightarrow> (x * 2, y * 2, z * 2))"

definition drawCircle :: "mat4 \<Rightarrow> real \<Rightarrow> real \<Rightarrow> vec4 \<Rightarrow> RendererData \<Rightarrow> RendererData" where
  "drawCircle transform thickness fade color s =
     s\<lparr>circle_vertices := circle_vertices s
          @ map (\<lambda>i. \<lparr>cv_worldPosition = (transform, quad_vertexPos s i),
                      cv_localPosition = scale2 (quad_vertexPos s i),
                      cv_color = color, cv_thickness = thickness, cv_fade = fade\<rparr>) [0..<4],
       circle_indexCount := circle_indexCount s + 6\<rparr>"

text \<open>
  Initialisation. \<^verbatim>\<open>s_renderer\<close> is the static object before \<^verbatim>\<open>init\<close>, with the default
  member initialisers of the structs. Each \<^verbatim>\<open>init*\<close> resizes its vertex vector to
  \<^verbatim>\<open>maxVertices\<close> default vertices. Of the facade calls made during initialisation the
  trace records those of the kinds it records elsewhere: \<^verbatim>\<open>quad.program->use()\<close> and the
  loop \<^verbatim>\<open>for (int i = 0; i < maxTextureSlots; i++) quad.program->setInt("textures[i]", i)\<close>
  of \<^verbatim>\<open>utils::initQuad\<close>, and the upload of the white pixel to the default texture. The
  creation of buffers, vertex arrays and shader programs, \<^verbatim>\<open>link\<close> and
  \<^verbatim>\<open>setBlockBinding\<close> have no command in the trace. \<^verbatim>\<open>init\<close> takes the handle that
  \<^verbatim>\<open>Texture2D::create\<close> returns.
\<close>

text \<open>\<^verbatim>\<open>std::to_string\<close> on a non-negative \<^verbatim>\<open>int\<close>: its decimal digits.\<close>

fun to_string :: "nat \<Rightarrow> string" where
  "to_string n =
     (if n < 10 then [''0123456789'' ! n]
      else to_string (n div 10) @ [''0123456789'' ! (n mod 10)])"

declare to_string.simps [simp del]

text \<open>The sampler loop of \<^verbatim>\<open>utils::initQuad\<close>: the name \<^verbatim>\<open>"textures[" + to_string(i) + "]"\<close>
  is set to \<open>i\<close>, for \<open>i\<close> from 0 up to \<^verbatim>\<open>maxTextureSlots\<close>.\<close>

definition initSamplers :: "DeviceCmd list" where
  "initSamplers =
     map (\<lambda>i. QuadSetInt (''textures['' @ to_string i @ '']'') (int i))
       [0..<unat maxTextureSlots]"

definition s_renderer :: RendererData where
  "s_renderer =
     \<lparr>textureSlots = (\<lambda>i. None), defaultTexture = None, textureSlotIndex = 1,
      quad_vertices = [], quad_transforms = [],
      quad_vertexPos = (\<lambda>i. (0, 0, 0, 0)), quad_uvCoords = (\<lambda>i. (0, 0)),
      quad_transformIndexCount = 0, quad_indexCount = 0,
      line_vertices = [], circle_vertices = [], circle_indexCount = 0,
      lighting_lights = [], lighting_lightCount = 0, lighting_enabled = False,
      cameraBuffer = Mat4 (replicate 16 0),
      stats_drawCalls = 0, stats_quadCount = 0, stats_lineCount = 0,
      device = []\<rparr>"

definition initQuad :: "RendererData \<Rightarrow> RendererData" where
  "initQuad s =
     s\<lparr>quad_vertices := replicate maxVertices
          \<lparr>qv_pos = (0, 0, 0), qv_color = (1, 1, 1, 1), qv_uv = (0, 0),
           qv_transformIndex = 0, qv_textureIndex = 0\<rparr>,
       quad_vertexPos := (\<lambda>i. if i = 0 then (0.5, 0.5, 0, 1)
                              else if i = 1 then (-0.5, 0.5, 0, 1)
                              else if i = 2 then (-0.5, -0.5, 0, 1)
                              else if i = 3 then (0.5, -0.5, 0, 1)
                              else quad_vertexPos s i),
       quad_uvCoords := (\<lambda>i. if i = 0 then (1, 1)
                             else if i = 1 then (0, 1)
                             else if i = 2 then (0, 0)
                             else if i = 3 then (1, 0)
                             else quad_uvCoords s i),
       device := device s @ [QuadProgramUse] @ initSamplers\<rparr>"

definition initLine :: "RendererData \<Rightarrow> RendererData" where
  "initLine s =
     s\<lparr>line_vertices := replicate maxVertices \<lparr>lv_position = (0, 0, 0), lv_color = (1, 1, 1, 1)\<rparr>\<rparr>"

definition initCircle :: "RendererData \<Rightarrow> RendererData" where
  "initCircle s =
     s\<lparr>circle_vertices := replicate maxVertices
          \<lparr>cv_worldPosition = (Mat4 [], (0, 0, 0, 0)), cv_localPosition = (0, 0, 0),
           cv_color = (0, 0, 0, 0), cv_thickness = 0, cv_fade = 0\<rparr>\<rparr>"

definition init :: "Texture2D \<Rightarrow> RendererData \<Rightarrow> RendererData" where
  "init created s =
     (let s1 = initCircle (initLine (initQuad s)) in
      s1\<lparr>defaultTexture := Some created,
         device := device s1 @ [TextureSetData created 0xFFFFFFFF],
         textureSlots := (textureSlots s1)(0 := Some created)\<rparr>)"

definition deinit :: "RendererData \<Rightarrow> RendererData" where
  "deinit s = s\<lparr>quad_vertices := [], line_vertices := [], circle_vertices := []\<rparr>"

text \<open>
  The public calls a client makes between \<^verbatim>\<open>init\<close> and shutdown, and a sequence of
  them run in order; a failed assertion ends the run.
\<close>

datatype Call =
    BeginScene mat4
  | EndScene
  | Flush
  | StartBatch
  | NextBatch
  | Deinit
  | EnableLighting bool
  | AddLight Light
  | DrawQuad vec3 vec2 vec4
  | DrawQuadTex vec3 vec2 Texture2D vec4
  | DrawLine vec3 vec3 vec4
  | DrawCircle mat4 real real vec4

fun call :: "Call \<Rightarrow> RendererData \<Rightarrow> error + RendererData" where
  "call (BeginScene vp) s = Inr (beginScene vp s)"
| "call EndScene s = Inr (endScene s)"
| "call Flush s = Inr (flush s)"
| "call StartBatch s = Inr (startBatch s)"
| "call NextBatch s = Inr (nextBatch s)"
| "call Deinit s = Inr (deinit s)"
| "call (EnableLighting v) s = Inr (enableLighting v s)"
| "call (AddLight l) s = Inr (addLight l s)"
| "call (DrawQuad p sz c) s = Inr (drawQuad p sz c s)"
| "call (DrawQuadTex p sz t c) s = drawQuadTex p sz t c s"
| "call (DrawLine p1 p2 c) s = Inr (drawLine p1 p2 c s)"
| "call (DrawCircle tr th fd c) s = Inr (drawCircle tr th fd c s)"

fun run :: "Call list \<Rightarrow> RendererData \<Rightarrow> error + RendererData" where
  "run [] s = Inr s"
| "run (c # cs) s = (case call c s of Inl e \<Rightarrow> Inl e | Inr s' \<Rightarrow> run cs s')"

text \<open>Counting the draw calls in a trace, per primitive kind and in total.\<close>

fun isQuadDraw :: "DeviceCmd \<Rightarrow> bool" where
  "isQuadDraw (QuadDrawIndexed n) = True"
| "isQuadDraw _ = False"

fun isDraw :: "DeviceCmd \<Rightarrow> bool" where
  "isDraw (QuadDrawIndexed n) = True"
| "isDraw (DrawLines n) = True"
| "isDraw (CircleDrawIndexed n) = True"
| "isDraw _ = False"

definition quadDraws :: "DeviceCmd list \<Rightarrow> nat" where
  "quadDraws cmds = length (filter isQuadDraw cmds)"

definition allDraws :: "DeviceCmd list \<Rightarrow> nat" where
  "allDraws cmds = length (filter isDraw cmds)"

section \<open>Sequences of calls and concrete inputs\<close>

text \<open>
  Untextured and textured \<^verbatim>\<open>drawQuad\<close> calls built from their argument tuples, and
  the effect of a sequence of untextured ones.
\<close>

definition quadCall :: "vec3 \<times> vec2 \<times> vec4 \<Rightarrow> Call" where
  "quadCall q = (case q of (p, sz, c) \<Rightarrow> DrawQuad p sz c)"

definition drawQuads :: "(vec3 \<times> vec2 \<times> vec4) list \<Rightarrow> RendererData \<Rightarrow> RendererData" where
  "drawQuads qs s = foldl (\<lambda>s' q. case q of (p, sz, c) \<Rightarrow> drawQuad p sz c s') s qs"

definition texCall :: "Texture2D \<times> vec3 \<times> vec2 \<times> vec4 \<Rightarrow> Call" where
  "texCall a = (case a of (t, p, sz, c) \<Rightarrow> DrawQuadTex p sz t c)"

text \<open>
  Calls that start a batch afresh, calls that set the lighting flag, and the lights that a
  sequence of calls passes to \<^verbatim>\<open>addLight\<close>, in order.
\<close>

fun isReset :: "Call \<Rightarrow> bool" where
  "isReset (BeginScene vp) = True"
| "isReset StartBatch = True"
| "isReset NextBatch = True"
| "isReset _ = False"

fun isEnableLighting :: "Call \<Rightarrow> bool" where
  "isEnableLighting (EnableLighting v) = True"
| "isEnableLighting _ = False"

fun addedLights :: "Call list \<Rightarrow> Light list" where
  "addedLights [] = []"
| "addedLights (AddLight l # cs) = l # addedLights cs"
| "addedLights (c # cs) = addedLights cs"

text \<open>
  The number of primitive kinds that \<^verbatim>\<open>flush\<close> finds non-empty, by the test each
  \<^verbatim>\<open>flush*\<close> function makes.
\<close>

definition nonEmptyKinds :: "RendererData \<Rightarrow> nat" where
  "nonEmptyKinds s =
     (if quad_vertices s \<noteq> [] then 1 else 0) + (if line_vertices s \<noteq> [] then 1 else 0)
     + (if circle_indexCount s \<noteq> 0 then 1 else 0)"

text \<open>
  Concrete inputs: the renderer right after \<^verbatim>\<open>init\<close>, a quad, lights, a scene with one
  quad, 33 distinct textures, a renderer with one texture bound, and two call sequences.
\<close>

definition demo_state :: RendererData where
  "demo_state = init (Texture2D 0) s_renderer"

definition demo_quad :: "vec3 \<times> vec2 \<times> vec4" where
  "demo_quad = ((0, 0, 0), (1, 1), (1, 1, 1, 1))"

definition demo_light :: "nat \<Rightarrow> Light" where
  "demo_light k = Light (real k, 0, 0) (1, 1, 1, 1) 1"

definition demo_scenes :: "Call list" where
  "demo_scenes =
     [BeginScene Identity, AddLight (demo_light 0), DrawQuad (0, 0, 0) (1, 1) (1, 1, 1, 1),
      EndScene, BeginScene Identity, EndScene]"

definition demo_one_quad :: RendererData where
  "demo_one_quad = drawQuad (0, 0, 0) (1, 1) (1, 1, 1, 1) (beginScene Identity demo_state)"

definition demo_textured :: "(Texture2D \<times> vec3 \<times> vec2 \<times> vec4) list" where
  "demo_textured = map (\<lambda>k. (Texture2D k, (0, 0, 0), (1, 1), (1, 1, 1, 1))) [0..<33]"

definition demo_bound :: RendererData where
  "demo_bound = assignSlot (Texture2D 7) (beginScene Identity demo_state)"

definition demo_calls :: "Call list" where
  "demo_calls =
     [BeginScene Identity, DrawQuadTex (0, 0, 0) (1, 1) (Texture2D 5) (1, 1, 1, 1),
      DrawQuad (2, 0, 0) (1, 1) (1, 0, 0, 1), NextBatch,
      DrawQuadTex (0, 0, 0) (1, 1) (Texture2D 6) (1, 1, 1, 1), EndScene]"

section \<open>Properties of the cellular automaton\<close>

lemma neighbour_step_eq:
  "neighbour_step b i j x y live =
     live + (if x = 0 \<and> y = 0 then 0 else live_at b (x + i) (y + j))"
  by (simp add: neighbour_step_def live_at_def Let_def)

lemma count_live_eq: "count_live b i j = live_neighbours b i j"
proof -
  have a: "-1 + i = i - 1" "1 + i = i + 1" "-1 + j = j - 1" "1 + j = j + 1" by simp_all
  show ?thesis
    unfolding count_live_def live_neighbours_def neighbour_step_eq
    by (simp add: a)
qed

text \<open>
  Claim C9. For every cell \<open>(i, j)\<close> of the board, \<^verbatim>\<open>is_cell_alive\<close> returns (the
  assertion does not fire) and: a dead cell with exactly 3 live neighbours becomes alive;
  a live cell with exactly 2 live neighbours stays alive; a cell with 4 or more live
  neighbours is dead in the next generation whatever its previous state.
\<close>

theorem is_cell_alive_rules:
  assumes "0 \<le> i" "i < row" "0 \<le> j" "j < col"
  shows "(b i j = 0 \<and> live_neighbours b i j = 3 \<longrightarrow> is_cell_alive b i j = Inr True)
       \<and> (b i j \<noteq> 0 \<and> live_neighbours b i j = 2 \<longrightarrow> is_cell_alive b i j = Inr True)
       \<and> (live_neighbours b i j \<ge> 4 \<longrightarrow> is_cell_alive b i j = Inr False)"
  using assms by (simp add: is_cell_alive_def count_live_eq Let_def)

theorem is_cell_alive_rules_witness:
  "live_neighbours demo_board 1 0 = 3 \<and> demo_board 1 0 = 0
   \<and> is_cell_alive demo_board 1 0 = Inr True
   \<and> live_neighbours demo_board 1 1 = 2 \<and> demo_board 1 1 \<noteq> 0
   \<and> is_cell_alive demo_board 1 1 = Inr True
   \<and> live_neighbours demo_board 11 11 = 8 \<and> demo_board 11 11 \<noteq> 0
   \<and> is_cell_alive demo_board 11 11 = Inr False"
proof -
  have n1: "live_neighbours demo_board 1 0 = 3" "demo_board 1 0 = 0"
    by (simp_all add: live_neighbours_def live_at_def demo_board_def row_def col_def)
  have n2: "live_neighbours demo_board 1 1 = 2" "demo_board 1 1 \<noteq> 0"
    by (simp_all add: live_neighbours_def live_at_def demo_board_def row_def col_def)
  have n3: "live_neighbours demo_board 11 11 = 8" "demo_board 11 11 \<noteq> 0"
    by (simp_all add: live_neighbours_def live_at_def demo_board_def row_def col_def)
  have r: "(0::int) \<le> 1" "(1::int) < row" "(0::int) \<le> 0" "(0::int) < col"
    "(0::int) \<le> 11" "(11::int) < row" "(11::int) < col"
    by (simp_all add: row_def col_def)
  from is_cell_alive_rules [of 1 0 demo_board] n1 r
  have a: "is_cell_alive demo_board 1 0 = Inr True" by simp
  from is_cell_alive_rules [of 1 1 demo_board] n2 r
  have b: "is_cell_alive demo_board 1 1 = Inr True" by simp
  from is_cell_alive_rules [of 11 11 demo_board] n3 r
  have c: "is_cell_alive demo_board 11 11 = Inr False" by simp
  from n1 n2 n3 a b c show ?thesis by simp
qed

section \<open>Properties of the renderer: flushing and untextured quads\<close>

lemma quadDraws_append: "quadDraws (xs @ ys) = quadDraws xs + quadDraws ys"
  by (simp add: quadDraws_def)

lemma allDraws_append: "allDraws (xs @ ys) = allDraws xs + allDraws ys"
  by (simp add: allDraws_def)

lemma filter_bindTextures:
  "filter isQuadDraw (bindTextures s) = []" "filter isDraw (bindTextures s) = []"
  by (simp_all add: bindTextures_def filter_map o_def)

lemma flushQuad_empty: "quad_vertices s = [] \<Longrightarrow> flushQuad s = s"
  by (simp add: flushQuad_def)

lemma flushQuad_device:
  "quad_vertices s \<noteq> [] \<Longrightarrow>
     quadDraws (device (flushQuad s)) = quadDraws (device s) + 1
   \<and> allDraws (device (flushQuad s)) = allDraws (device s) + 1"
  by (simp add: flushQuad_def quadDraws_def allDraws_def filter_bindTextures)

lemma flushQuad_stats:
  "quad_vertices s \<noteq> [] \<Longrightarrow>
     stats_drawCalls (flushQuad s) = stats_drawCalls s + 1
   \<and> stats_quadCount (flushQuad s) = stats_quadCount s + length (quad_transforms s)
   \<and> stats_lineCount (flushQuad s) = stats_lineCount s"
  by (simp add: flushQuad_def)

lemma flushQuad_frame:
  "quad_vertices (flushQuad s) = quad_vertices s"
  "quad_transforms (flushQuad s) = quad_transforms s"
  "quad_indexCount (flushQuad s) = quad_indexCount s"
  "quad_transformIndexCount (flushQuad s) = quad_transformIndexCount s"
  "line_vertices (flushQuad s) = line_vertices s"
  "circle_vertices (flushQuad s) = circle_vertices s"
  "circle_indexCount (flushQuad s) = circle_indexCount s"
  "textureSlots (flushQuad s) = textureSlots s"
  "textureSlotIndex (flushQuad s) = textureSlotIndex s"
  "defaultTexture (flushQuad s) = defaultTexture s"
  "lighting_lights (flushQuad s) = lighting_lights s"
  "lighting_lightCount (flushQuad s) = lighting_lightCount s"
  "lighting_enabled (flushQuad s) = lighting_enabled s"
  by (simp_all add: flushQuad_def)

lemma run_append:
  "run (xs @ ys) s = (case run xs s of Inl e \<Rightarrow> Inl e | Inr s' \<Rightarrow> run ys s')"
  by (induction xs arbitrary: s) (auto split: sum.splits)

lemma drawQuads_Nil: "drawQuads [] s = s"
  by (simp add: drawQuads_def)

lemma drawQuads_Cons: "drawQuads ((p, sz, c) # qs) s = drawQuads qs (drawQuad p sz c s)"
  by (simp add: drawQuads_def)

lemma drawQuads_snoc: "drawQuads (qs @ [(p, sz, c)]) s = drawQuad p sz c (drawQuads qs s)"
  by (simp add: drawQuads_def)

lemma run_quadCalls: "run (map quadCall qs) s = Inr (drawQuads qs s)"
  by (induction qs arbitrary: s) (auto simp: drawQuads_Nil drawQuads_Cons quadCall_def)

lemma length_quadCorners: "length (quadCorners s c k) = 4"
  by (simp add: quadCorners_def)

lemma pushQuad_fields:
  "length (quad_transforms (pushQuad p sz c k s)) = Suc (length (quad_transforms s))"
  "length (quad_vertices (pushQuad p sz c k s)) = length (quad_vertices s) + 4"
  "quad_vertices (pushQuad p sz c k s) \<noteq> []"
  "device (pushQuad p sz c k s) = device s"
  "stats_drawCalls (pushQuad p sz c k s) = stats_drawCalls s"
  "stats_quadCount (pushQuad p sz c k s) = stats_quadCount s"
  "stats_lineCount (pushQuad p sz c k s) = stats_lineCount s"
  "line_vertices (pushQuad p sz c k s) = line_vertices s"
  "circle_vertices (pushQuad p sz c k s) = circle_vertices s"
  "circle_indexCount (pushQuad p sz c k s) = circle_indexCount s"
  "textureSlots (pushQuad p sz c k s) = textureSlots s"
  "textureSlotIndex (pushQuad p sz c k s) = textureSlotIndex s"
  "defaultTexture (pushQuad p sz c k s) = defaultTexture s"
  "lighting_lights (pushQuad p sz c k s) = lighting_lights s"
  "lighting_lightCount (pushQuad p sz c k s) = lighting_lightCount s"
  "lighting_enabled (pushQuad p sz c k s) = lighting_enabled s"
  by (simp_all add: pushQuad_def quadCorners_def)

lemma nextQuadBatch_fields:
  "quad_transforms (nextQuadBatch s) = []"
  "quad_vertices (nextQuadBatch s) = []"
  "textureSlotIndex (nextQuadBatch s) = 1"
  "device (nextQuadBatch s) = device (flushQuad s)"
  "stats_drawCalls (nextQuadBatch s) = stats_drawCalls (flushQuad s)"
  "stats_quadCount (nextQuadBatch s) = stats_quadCount (flushQuad s)"
  "stats_lineCount (nextQuadBatch s) = stats_lineCount (flushQuad s)"
  "line_vertices (nextQuadBatch s) = line_vertices s"
  "circle_vertices (nextQuadBatch s) = circle_vertices s"
  "circle_indexCount (nextQuadBatch s) = circle_indexCount s"
  "textureSlots (nextQuadBatch s) = textureSlots s"
  "defaultTexture (nextQuadBatch s) = defaultTexture s"
  "lighting_lights (nextQuadBatch s) = lighting_lights s"
  "lighting_lightCount (nextQuadBatch s) = lighting_lightCount s"
  "lighting_enabled (nextQuadBatch s) = lighting_enabled s"
  by (simp_all add: nextQuadBatch_def quad_reset_def flushQuad_frame)

lemma drawQuad_below:
  "length (quad_transforms s) \<noteq> maxQuad \<Longrightarrow> drawQuad p sz c s = pushQuad p sz c 0 s"
  by (simp add: drawQuad_def)

lemma drawQuad_full:
  "length (quad_transforms s) = maxQuad \<Longrightarrow>
     drawQuad p sz c s = pushQuad p sz c 0 (nextQuadBatch s)"
  by (simp add: drawQuad_def)

lemma drawQuads_below:
  "length (quad_transforms s) + length qs \<le> maxQuad \<Longrightarrow>
     length (quad_transforms (drawQuads qs s)) = length (quad_transforms s) + length qs
   \<and> length (quad_vertices (drawQuads qs s)) = length (quad_vertices s) + 4 * length qs
   \<and> device (drawQuads qs s) = device s
   \<and> stats_drawCalls (drawQuads qs s) = stats_drawCalls s
   \<and> stats_quadCount (drawQuads qs s) = stats_quadCount s
   \<and> line_vertices (drawQuads qs s) = line_vertices s
   \<and> circle_indexCount (drawQuads qs s) = circle_indexCount s"
proof (induction qs arbitrary: s)
  case Nil
  then show ?case by (simp add: drawQuads_Nil)
next
  case (Cons q qs)
  obtain p sz c where q: "q = (p, sz, c)"
    by (cases q) auto
  from Cons.prems have below: "length (quad_transforms s) \<noteq> maxQuad"
    by auto
  let ?s = "pushQuad p sz c 0 s"
  from Cons.prems have "length (quad_transforms ?s) + length qs \<le> maxQuad"
    by (simp add: pushQuad_fields)
  from Cons.IH [OF this] show ?case
    by (simp add: q drawQuads_Cons drawQuad_below [OF below] pushQuad_fields)
qed

lemma beginScene_fields:
  "quad_vertices (beginScene vp s) = []"
  "quad_transforms (beginScene vp s) = []"
  "quad_indexCount (beginScene vp s) = 0"
  "line_vertices (beginScene vp s) = []"
  "circle_vertices (beginScene vp s) = []"
  "circle_indexCount (beginScene vp s) = 0"
  "stats_drawCalls (beginScene vp s) = 0"
  "stats_quadCount (beginScene vp s) = 0"
  "stats_lineCount (beginScene vp s) = 0"
  "lighting_lights (beginScene vp s) = []"
  "lighting_lightCount (beginScene vp s) = 0"
  "lighting_enabled (beginScene vp s) = lighting_enabled s"
  "textureSlotIndex (beginScene vp s) = 1"
  "textureSlots (beginScene vp s) = textureSlots s"
  "defaultTexture (beginScene vp s) = defaultTexture s"
  "device (beginScene vp s) = device s @ [CameraSetData vp]"
  by (simp_all add: beginScene_def startBatch_def quad_reset_def line_reset_def
      circle_reset_def Let_def)

lemma draws_beginScene:
  "quadDraws (device (beginScene vp s)) = quadDraws (device s)"
  "allDraws (device (beginScene vp s)) = allDraws (device s)"
  by (simp_all add: beginScene_fields quadDraws_def allDraws_def)

lemma flushLine_empty: "line_vertices s = [] \<Longrightarrow> flushLine s = s"
  by (simp add: flushLine_def)

lemma flushCircle_empty: "circle_indexCount s = 0 \<Longrightarrow> flushCircle s = s"
  by (simp add: flushCircle_def)

lemma flush_only_quads:
  "line_vertices s = [] \<Longrightarrow> circle_indexCount s = 0 \<Longrightarrow> flush s = flushQuad s"
  by (simp add: flush_def flushLine_empty flushCircle_empty flushQuad_frame)

text \<open>
  Claim C1. In every scene, \<open>maxQuad + 1\<close> untextured \<^verbatim>\<open>drawQuad\<close> calls between
  \<^verbatim>\<open>beginScene\<close> and \<^verbatim>\<open>endScene\<close> issue exactly two quad draw calls: none during the
  first \<open>maxQuad\<close> calls, one inside the last call (the rollover), and one in
  \<^verbatim>\<open>endScene\<close>. No other draw call is issued, and the statistics count 2 draw calls.
\<close>

theorem rollover_two_quad_draws:
  assumes len: "length qs = maxQuad + 1"
  shows "\<exists>s1 s2 s3.
           run (BeginScene vp # map quadCall (butlast qs)) s = Inr s1
         \<and> run (BeginScene vp # map quadCall qs) s = Inr s2
         \<and> run (BeginScene vp # map quadCall qs @ [EndScene]) s = Inr s3
         \<and> quadDraws (device s1) = quadDraws (device s)
         \<and> quadDraws (device s2) = quadDraws (device s) + 1
         \<and> quadDraws (device s3) = quadDraws (device s) + 2
         \<and> allDraws (device s3) = allDraws (device s) + 2
         \<and> stats_drawCalls s3 = 2
         \<and> stats_quadCount s3 = maxQuad + 1"
proof -
  from len have "qs \<noteq> []" by auto
  then obtain p sz c where qs: "qs = butlast qs @ [(p, sz, c)]"
    by (metis append_butlast_last_id prod_cases3)
  let ?b = "beginScene vp s"
  let ?s1 = "drawQuads (butlast qs) ?b"
  let ?n = "nextQuadBatch ?s1"
  let ?s2 = "pushQuad p sz c 0 ?n"
  let ?s3 = "flushQuad ?s2"
  from len have lb: "length (butlast qs) = maxQuad" by simp
  then have "length (quad_transforms ?b) + length (butlast qs) \<le> maxQuad"
    by (simp add: beginScene_fields)
  from drawQuads_below [OF this] lb
  have s1: "length (quad_transforms ?s1) = maxQuad"
    "length (quad_vertices ?s1) = 4 * maxQuad"
    "device ?s1 = device ?b" "stats_drawCalls ?s1 = 0" "stats_quadCount ?s1 = 0"
    "line_vertices ?s1 = []" "circle_indexCount ?s1 = 0"
    by (simp_all add: beginScene_fields)
  from s1(2) have ne1: "quad_vertices ?s1 \<noteq> []"
    by (auto simp: maxQuad_def)
  have r1: "run (BeginScene vp # map quadCall (butlast qs)) s = Inr ?s1"
    by (simp add: run_quadCalls)
  have "drawQuads qs ?b = drawQuad p sz c ?s1"
    by (subst qs) (simp only: drawQuads_snoc)
  then have d2: "drawQuads qs ?b = ?s2"
    by (simp add: drawQuad_full [OF s1(1)])
  have r2: "run (BeginScene vp # map quadCall qs) s = Inr ?s2"
    by (simp add: run_quadCalls d2)
  have fl: "flush ?s2 = ?s3"
    by (rule flush_only_quads) (simp_all add: pushQuad_fields nextQuadBatch_fields s1)
  have r3: "run (BeginScene vp # map quadCall qs @ [EndScene]) s = Inr ?s3"
    using run_append [of "BeginScene vp # map quadCall qs" "[EndScene]" s]
    by (simp add: run_quadCalls d2 endScene_def fl)
  have q1: "quadDraws (device ?s1) = quadDraws (device s)"
    by (simp add: s1 draws_beginScene)
  have q2: "quadDraws (device ?s2) = quadDraws (device s) + 1"
    by (simp add: pushQuad_fields nextQuadBatch_fields flushQuad_device [OF ne1] q1)
  have a2: "allDraws (device ?s2) = allDraws (device s) + 1"
    by (simp add: pushQuad_fields nextQuadBatch_fields flushQuad_device [OF ne1] s1
        draws_beginScene)
  have ne2: "quad_vertices ?s2 \<noteq> []"
    by (simp add: pushQuad_fields)
  have q3: "quadDraws (device ?s3) = quadDraws (device s) + 2"
    by (simp add: flushQuad_device [OF ne2] q2)
  have a3: "allDraws (device ?s3) = allDraws (device s) + 2"
    by (simp add: flushQuad_device [OF ne2] a2)
  have st1: "stats_drawCalls (flushQuad ?s1) = 1" "stats_quadCount (flushQuad ?s1) = maxQuad"
    using flushQuad_stats [OF ne1] s1 by simp_all
  have st2: "stats_drawCalls ?s2 = 1" "stats_quadCount ?s2 = maxQuad"
    "length (quad_transforms ?s2) = 1"
    by (simp_all add: pushQuad_fields nextQuadBatch_fields st1)
  have st3: "stats_drawCalls ?s3 = 2" "stats_quadCount ?s3 = maxQuad + 1"
    using flushQuad_stats [OF ne2] st2 by simp_all
  from r1 r2 r3 q1 q2 q3 a3 st3 show ?thesis
    by blast
qed

theorem rollover_two_quad_draws_witness:
  "length (replicate 1001 demo_quad) = maxQuad + 1
   \<and> (\<exists>s1 s2 s3.
           run (BeginScene Identity # map quadCall (butlast (replicate 1001 demo_quad))) demo_state
             = Inr s1
         \<and> run (BeginScene Identity # map quadCall (replicate 1001 demo_quad)) demo_state = Inr s2
         \<and> run (BeginScene Identity # map quadCall (replicate 1001 demo_quad) @ [EndScene])
               demo_state = Inr s3
         \<and> quadDraws (device s1) = quadDraws (device demo_state)
         \<and> quadDraws (device s2) = quadDraws (device demo_state) + 1
         \<and> quadDraws (device s3) = quadDraws (device demo_state) + 2
         \<and> allDraws (device s3) = allDraws (device demo_state) + 2
         \<and> stats_drawCalls s3 = 2
         \<and> stats_quadCount s3 = maxQuad + 1)"
proof (rule conjI)
  show len: "length (replicate 1001 demo_quad) = maxQuad + 1"
    by (simp add: maxQuad_def)
  show "\<exists>s1 s2 s3.
           run (BeginScene Identity # map quadCall (butlast (replicate 1001 demo_quad))) demo_state
             = Inr s1
         \<and> run (BeginScene Identity # map quadCall (replicate 1001 demo_quad)) demo_state = Inr s2
         \<and> run (BeginScene Identity # map quadCall (replicate 1001 demo_quad) @ [EndScene])
               demo_state = Inr s3
         \<and> quadDraws (device s1) = quadDraws (device demo_state)
         \<and> quadDraws (device s2) = quadDraws (device demo_state) + 1
         \<and> quadDraws (device s3) = quadDraws (device demo_state) + 2
         \<and> allDraws (device s3) = allDraws (device demo_state) + 2
         \<and> stats_drawCalls s3 = 2
         \<and> stats_quadCount s3 = maxQuad + 1"
    by (rule rollover_two_quad_draws [OF len])
qed

section \<open>Properties of the renderer: every call returns\<close>

lemma drawQuadTex_Inr:
  "drawQuadTex p sz t c s =
     Inr (let k = findTexture (textureSlots s) 1 (textureSlotIndex s) t in
          if k = 0
          then (let s1 = (if textureSlotIndex s = maxTextureSlots then nextQuadBatch s else s)
                in pushQuad p sz c (unat (textureSlotIndex s1)) (assignSlot t s1))
          else pushQuad p sz c k s)"
  by (simp add: drawQuadTex_def Let_def nextQuadBatch_fields maxTextureSlots_def)

lemma call_total: "\<exists>s'. call c s = Inr s'"
  by (cases c) (simp_all add: drawQuadTex_Inr)

lemma run_total: "\<exists>s'. run cs s = Inr s'"
proof (induction cs arbitrary: s)
  case Nil
  show ?case by simp
next
  case (Cons c cs)
  from call_total obtain s1 where "call c s = Inr s1" by blast
  with Cons.IH [of s1] show ?case by simp
qed

section \<open>Properties of the renderer: lighting\<close>

lemma flushLine_frame:
  "quad_vertices (flushLine s) = quad_vertices s"
  "quad_transforms (flushLine s) = quad_transforms s"
  "line_vertices (flushLine s) = line_vertices s"
  "circle_vertices (flushLine s) = circle_vertices s"
  "circle_indexCount (flushLine s) = circle_indexCount s"
  "textureSlots (flushLine s) = textureSlots s"
  "textureSlotIndex (flushLine s) = textureSlotIndex s"
  "defaultTexture (flushLine s) = defaultTexture s"
  "lighting_lights (flushLine s) = lighting_lights s"
  "lighting_lightCount (flushLine s) = lighting_lightCount s"
  "lighting_enabled (flushLine s) = lighting_enabled s"
  by (simp_all add: flushLine_def)

lemma flushCircle_frame:
  "quad_vertices (flushCircle s) = quad_vertices s"
  "quad_transforms (flushCircle s) = quad_transforms s"
  "line_vertices (flushCircle s) = line_vertices s"
  "circle_vertices (flushCircle s) = circle_vertices s"
  "circle_indexCount (flushCircle s) = circle_indexCount s"
  "textureSlots (flushCircle s) = textureSlots s"
  "textureSlotIndex (flushCircle s) = textureSlotIndex s"
  "defaultTexture (flushCircle s) = defaultTexture s"
  "lighting_lights (flushCircle s) = lighting_lights s"
  "lighting_lightCount (flushCircle s) = lighting_lightCount s"
  "lighting_enabled (flushCircle s) = lighting_enabled s"
  "stats_drawCalls (flushCircle s) = stats_drawCalls s"
  "stats_quadCount (flushCircle s) = stats_quadCount s"
  "stats_lineCount (flushCircle s) = stats_lineCount s"
  by (simp_all add: flushCircle_def)

lemma flush_frame:
  "quad_vertices (flush s) = quad_vertices s"
  "quad_transforms (flush s) = quad_transforms s"
  "line_vertices (flush s) = line_vertices s"
  "circle_vertices (flush s) = circle_vertices s"
  "circle_indexCount (flush s) = circle_indexCount s"
  "textureSlots (flush s) = textureSlots s"
  "textureSlotIndex (flush s) = textureSlotIndex s"
  "defaultTexture (flush s) = defaultTexture s"
  "lighting_lights (flush s) = lighting_lights s"
  "lighting_lightCount (flush s) = lighting_lightCount s"
  "lighting_enabled (flush s) = lighting_enabled s"
  by (simp_all add: flush_def flushCircle_frame flushLine_frame flushQuad_frame)

lemma assignSlot_frame:
  "lighting_lights (assignSlot t s) = lighting_lights s"
  "lighting_lightCount (assignSlot t s) = lighting_lightCount s"
  "lighting_enabled (assignSlot t s) = lighting_enabled s"
  "defaultTexture (assignSlot t s) = defaultTexture s"
  "quad_vertices (assignSlot t s) = quad_vertices s"
  "quad_transforms (assignSlot t s) = quad_transforms s"
  "line_vertices (assignSlot t s) = line_vertices s"
  "circle_vertices (assignSlot t s) = circle_vertices s"
  "circle_indexCount (assignSlot t s) = circle_indexCount s"
  "device (assignSlot t s) = device s"
  "stats_drawCalls (assignSlot t s) = stats_drawCalls s"
  "stats_quadCount (assignSlot t s) = stats_quadCount s"
  "stats_lineCount (assignSlot t s) = stats_lineCount s"
  by (simp_all add: assignSlot_def)

lemma drawQuad_lighting:
  "lighting_lights (drawQuad p sz c s) = lighting_lights s"
  "lighting_lightCount (drawQuad p sz c s) = lighting_lightCount s"
  "lighting_enabled (drawQuad p sz c s) = lighting_enabled s"
  by (simp_all add: drawQuad_def pushQuad_fields nextQuadBatch_fields)

lemma drawQuadTex_lighting:
  assumes "drawQuadTex p sz t c s = Inr s'"
  shows "lighting_lights s' = lighting_lights s"
    and "lighting_lightCount s' = lighting_lightCount s"
    and "lighting_enabled s' = lighting_enabled s"
  using assms
  by (auto simp: drawQuadTex_Inr Let_def pushQuad_fields assignSlot_frame
      nextQuadBatch_fields split: if_splits)

lemma drawLine_lighting:
  "lighting_lights (drawLine p1 p2 c s) = lighting_lights s"
  "lighting_lightCount (drawLine p1 p2 c s) = lighting_lightCount s"
  "lighting_enabled (drawLine p1 p2 c s) = lighting_enabled s"
  by (simp_all add: drawLine_def Let_def nextLineBatch_def line_reset_def flushLine_frame)

lemma drawCircle_lighting:
  "lighting_lights (drawCircle tr th fd c s) = lighting_lights s"
  "lighting_lightCount (drawCircle tr th fd c s) = lighting_lightCount s"
  "lighting_enabled (drawCircle tr th fd c s) = lighting_enabled s"
  by (simp_all add: drawCircle_def)

lemma addLight_enabled: "lighting_enabled (addLight l s) = lighting_enabled s"
  by (simp add: addLight_def)

lemma startBatch_enabled: "lighting_enabled (startBatch s) = lighting_enabled s"
  by (simp add: startBatch_def quad_reset_def line_reset_def circle_reset_def)

lemma call_lights:
  assumes "call c s = Inr s'" "\<not> isReset c" "addedLights [c] = []"
  shows "lighting_lights s' = lighting_lights s \<and> lighting_lightCount s' = lighting_lightCount s"
  using assms
  by (cases c)
     (auto simp: endScene_def flush_frame deinit_def enableLighting_def drawQuad_lighting
       drawQuadTex_lighting drawLine_lighting drawCircle_lighting)

lemma call_enabled:
  assumes "call c s = Inr s'" "\<not> isEnableLighting c"
  shows "lighting_enabled s' = lighting_enabled s"
  using assms
  by (cases c)
     (auto simp: endScene_def flush_frame deinit_def beginScene_fields startBatch_enabled
       nextBatch_def addLight_enabled drawQuad_lighting
       drawQuadTex_lighting drawLine_lighting drawCircle_lighting)

lemma unat_Suc_32:
  fixes x :: "32 word"
  assumes "unat x < 32"
  shows "unat (x + 1) = Suc (unat x)"
proof -
  from assms have "unat x + unat (1 :: 32 word) < 2 ^ LENGTH(32)"
    by simp
  then have "unat (x + 1) = unat x + unat (1 :: 32 word)"
    by (simp only: unat_add_lem)
  then show ?thesis by simp
qed

lemma maxLight_le_iff: "maxLight \<le> x \<longleftrightarrow> 32 \<le> unat x"
  by (simp add: maxLight_def word_le_nat_alt)

lemma addLight_full: "maxLight \<le> lighting_lightCount s \<Longrightarrow> addLight l s = s"
  by (simp add: addLight_def)

lemma addLight_room:
  "lighting_lightCount s < maxLight \<Longrightarrow>
     lighting_lights (addLight l s) = lighting_lights s @ [l]
   \<and> lighting_lightCount (addLight l s) = lighting_lightCount s + 1"
  by (simp add: addLight_def)

lemma addLight_step:
  assumes "unat (lighting_lightCount s) = length (lighting_lights s)"
    and "length (lighting_lights s) \<le> 32"
  shows "lighting_lights (addLight l s) = take 32 (lighting_lights s @ [l])
       \<and> unat (lighting_lightCount (addLight l s)) = length (lighting_lights (addLight l s))
       \<and> length (lighting_lights (addLight l s)) \<le> 32"
proof (cases "length (lighting_lights s) = 32")
  case True
  with assms have "maxLight \<le> lighting_lightCount s"
    by (simp add: maxLight_le_iff)
  then have "addLight l s = s"
    by (rule addLight_full)
  with True assms show ?thesis by simp
next
  case False
  with assms have small: "unat (lighting_lightCount s) < 32"
    by simp
  then have "\<not> maxLight \<le> lighting_lightCount s"
    by (simp add: maxLight_le_iff)
  then have "lighting_lightCount s < maxLight"
    by simp
  from addLight_room [OF this, of l] unat_Suc_32 [OF small] assms False
  show ?thesis by simp
qed

lemma addedLights_Cons: "addedLights (c # cs) = addedLights [c] @ addedLights cs"
  by (cases c) simp_all

lemma addedLights_map: "addedLights (map AddLight ls) = ls"
  by (induction ls) simp_all

lemma take_take_append: "take n (take n xs @ ys) = take n (xs @ ys)"
  by (simp add: min_def)

lemma run_lights:
  assumes "unat (lighting_lightCount s) = length (lighting_lights s)"
    and "length (lighting_lights s) \<le> 32"
    and "list_all (\<lambda>c. \<not> isReset c) cs"
  shows "\<exists>s'. run cs s = Inr s'
            \<and> lighting_lights s' = take 32 (lighting_lights s @ addedLights cs)
            \<and> unat (lighting_lightCount s') = length (lighting_lights s')"
  using assms
proof (induction cs arbitrary: s)
  case Nil
  then show ?case by simp
next
  case (Cons c cs)
  from Cons.prems have rest: "list_all (\<lambda>c. \<not> isReset c) cs" and c: "\<not> isReset c"
    by simp_all
  show ?case
  proof (cases "\<exists>l. c = AddLight l")
    case True
    then obtain l where l: "c = AddLight l" by blast
    let ?s = "addLight l s"
    from addLight_step [OF Cons.prems(1,2), of l]
    have step: "lighting_lights ?s = take 32 (lighting_lights s @ [l])"
      "unat (lighting_lightCount ?s) = length (lighting_lights ?s)"
      "length (lighting_lights ?s) \<le> 32"
      by simp_all
    from Cons.IH [OF step(2,3) rest] obtain s' where s':
      "run cs ?s = Inr s'"
      "lighting_lights s' = take 32 (lighting_lights ?s @ addedLights cs)"
      "unat (lighting_lightCount s') = length (lighting_lights s')"
      by blast
    have "take 32 (lighting_lights ?s @ addedLights cs)
        = take 32 ((lighting_lights s @ [l]) @ addedLights cs)"
      unfolding step(1) by (rule take_take_append)
    also have "(lighting_lights s @ [l]) @ addedLights cs
        = lighting_lights s @ addedLights (c # cs)"
      by (simp add: l)
    finally have "lighting_lights s' = take 32 (lighting_lights s @ addedLights (c # cs))"
      using s'(2) by simp
    moreover have "run (c # cs) s = Inr s'"
      using s'(1) by (simp add: l)
    ultimately show ?thesis
      using s'(3) by blast
  next
    case False
    then have none: "addedLights [c] = []"
      by (cases c) simp_all
    from call_total obtain s1 where s1: "call c s = Inr s1" by blast
    from call_lights [OF s1 c none] Cons.prems
    have inv: "unat (lighting_lightCount s1) = length (lighting_lights s1)"
      "length (lighting_lights s1) \<le> 32" and same: "lighting_lights s1 = lighting_lights s"
      by simp_all
    from Cons.IH [OF inv rest] obtain s' where s':
      "run cs s1 = Inr s'"
      "lighting_lights s' = take 32 (lighting_lights s1 @ addedLights cs)"
      "unat (lighting_lightCount s') = length (lighting_lights s')"
      by blast
    have "addedLights (c # cs) = addedLights cs"
      using none by (simp add: addedLights_Cons [of c cs])
    with s'(2) same
    have "lighting_lights s' = take 32 (lighting_lights s @ addedLights (c # cs))"
      by simp
    moreover have "run (c # cs) s = Inr s'"
      using s1 s'(1) by simp
    ultimately show ?thesis
      using s'(3) by blast
  qed
qed

text \<open>
  Claim C6. \<^verbatim>\<open>addLight\<close> appends the light while the count is below \<open>maxLight\<close> and
  otherwise returns with the state unchanged, without an error. In a scene (any calls
  after \<^verbatim>\<open>beginScene\<close> that do not start a batch afresh), the lights retained are the
  first 32 passed to \<^verbatim>\<open>addLight\<close>, in order, so 40 calls retain exactly 32.
\<close>

theorem addLight_cap:
  assumes "list_all (\<lambda>c. \<not> isReset c) cs"
  shows "(maxLight \<le> lighting_lightCount s \<longrightarrow> addLight l s = s)
       \<and> (lighting_lightCount s < maxLight \<longrightarrow>
            lighting_lights (addLight l s) = lighting_lights s @ [l]
          \<and> lighting_lightCount (addLight l s) = lighting_lightCount s + 1)
       \<and> (\<exists>s'. run (BeginScene vp # cs) s0 = Inr s'
               \<and> lighting_lights s' = take (unat maxLight) (addedLights cs)
               \<and> length (lighting_lights s') = min 32 (length (addedLights cs))
               \<and> unat (lighting_lightCount s') = length (lighting_lights s'))"
proof -
  let ?b = "beginScene vp s0"
  have "unat (lighting_lightCount ?b) = length (lighting_lights ?b)"
    "length (lighting_lights ?b) \<le> 32"
    by (simp_all add: beginScene_fields)
  from run_lights [OF this assms] obtain s' where
    "run cs ?b = Inr s'"
    "lighting_lights s' = take 32 (lighting_lights ?b @ addedLights cs)"
    "unat (lighting_lightCount s') = length (lighting_lights s')"
    by blast
  then have "run (BeginScene vp # cs) s0 = Inr s'
      \<and> lighting_lights s' = take (unat maxLight) (addedLights cs)
      \<and> length (lighting_lights s') = min 32 (length (addedLights cs))
      \<and> unat (lighting_lightCount s') = length (lighting_lights s')"
    by (simp add: beginScene_fields maxLight_def min.commute)
  then show ?thesis
    using addLight_full [of s l] addLight_room [of s l] by blast
qed

theorem addLight_cap_witness:
  "list_all (\<lambda>c. \<not> isReset c) (map AddLight (map demo_light [0..<40]))
   \<and> (\<exists>s'. run (BeginScene Identity # map AddLight (map demo_light [0..<40])) demo_state = Inr s'
          \<and> lighting_lights s' = map demo_light [0..<32]
          \<and> length (lighting_lights s') = 32)"
proof (rule conjI)
  let ?ls = "map demo_light [0..<40]"
  show ok: "list_all (\<lambda>c. \<not> isReset c) (map AddLight ?ls)"
    by (simp add: list_all_iff)
  from addLight_cap [OF ok, where ?vp = Identity and ?s0.0 = demo_state]
  obtain s' where run: "run (BeginScene Identity # map AddLight ?ls) demo_state = Inr s'"
    and lights: "lighting_lights s' = take (unat maxLight) (addedLights (map AddLight ?ls))"
    by blast
  have "take (unat maxLight) (addedLights (map AddLight ?ls)) = take 32 ?ls"
    by (simp only: addedLights_map) (simp add: maxLight_def)
  also have "\<dots> = map demo_light [0..<32]"
    by (simp add: take_map)
  finally have "lighting_lights s' = map demo_light [0..<32]"
    using lights by simp
  moreover from this have "length (lighting_lights s') = 32"
    by simp
  ultimately show "\<exists>s'. run (BeginScene Identity # map AddLight ?ls) demo_state = Inr s'
          \<and> lighting_lights s' = map demo_light [0..<32]
          \<and> length (lighting_lights s') = 32"
    using run by blast
qed

lemma run_enabled:
  assumes "list_all (\<lambda>c. \<not> isEnableLighting c) cs"
  shows "\<exists>s'. run cs s = Inr s' \<and> lighting_enabled s' = lighting_enabled s"
  using assms
proof (induction cs arbitrary: s)
  case Nil
  show ?case by simp
next
  case (Cons c cs)
  from call_total obtain s1 where s1: "call c s = Inr s1" by blast
  from Cons.prems call_enabled [OF s1] have "lighting_enabled s1 = lighting_enabled s"
    by simp
  moreover from Cons.prems Cons.IH [of s1] obtain s' where
    "run cs s1 = Inr s'" "lighting_enabled s' = lighting_enabled s1"
    by auto
  ultimately show ?case using s1 by simp
qed

text \<open>
  Claim C10. \<^verbatim>\<open>beginScene\<close> empties the light list and sets the light count to zero;
  it leaves the lighting-enabled flag as it was. The flag set by \<^verbatim>\<open>enableLighting\<close>
  keeps its value through every sequence of calls (scenes included) that contains no
  other \<^verbatim>\<open>enableLighting\<close> call.
\<close>

theorem beginScene_clears_lights_keeps_flag:
  assumes "list_all (\<lambda>c. \<not> isEnableLighting c) cs"
  shows "lighting_lights (beginScene vp s) = []
       \<and> lighting_lightCount (beginScene vp s) = 0
       \<and> lighting_enabled (beginScene vp s) = lighting_enabled s
       \<and> lighting_enabled (enableLighting v s) = v
       \<and> (\<exists>s'. run cs (enableLighting v s) = Inr s' \<and> lighting_enabled s' = v)"
  using run_enabled [OF assms, of "enableLighting v s"]
  by (simp add: beginScene_fields enableLighting_def)

theorem beginScene_clears_lights_keeps_flag_witness:
  "list_all (\<lambda>c. \<not> isEnableLighting c) demo_scenes
   \<and> lighting_lights (beginScene Identity (addLight (demo_light 0) demo_state)) = []
   \<and> lighting_lightCount (beginScene Identity (addLight (demo_light 0) demo_state)) = 0
   \<and> (\<exists>s'. run demo_scenes (enableLighting True demo_state) = Inr s' \<and> lighting_enabled s' = True)"
proof -
  have ok: "list_all (\<lambda>c. \<not> isEnableLighting c) demo_scenes"
    by (simp add: demo_scenes_def)
  from beginScene_clears_lights_keeps_flag
    [OF ok, of Identity "addLight (demo_light 0) demo_state"]
    beginScene_clears_lights_keeps_flag [OF ok, of Identity demo_state True]
  show ?thesis using ok by blast
qed

section \<open>Properties of the renderer: flush and endScene\<close>

lemma flushLine_device:
  "allDraws (device (flushLine s)) = allDraws (device s) + (if line_vertices s \<noteq> [] then 1 else 0)"
  by (simp add: flushLine_def allDraws_def)

lemma flushCircle_device:
  "allDraws (device (flushCircle s))
     = allDraws (device s) + (if circle_indexCount s \<noteq> 0 then 1 else 0)"
  by (simp add: flushCircle_def allDraws_def)

lemma flushQuad_allDraws:
  "allDraws (device (flushQuad s)) = allDraws (device s) + (if quad_vertices s \<noteq> [] then 1 else 0)"
  using flushQuad_device [of s] flushQuad_empty [of s] by auto

lemma flush_allDraws: "allDraws (device (flush s)) = allDraws (device s) + nonEmptyKinds s"
  by (simp add: flush_def nonEmptyKinds_def flushCircle_device flushLine_device
      flushQuad_allDraws flushLine_frame flushQuad_frame)

lemma nonEmptyKinds_flush: "nonEmptyKinds (flush s) = nonEmptyKinds s"
  by (simp add: nonEmptyKinds_def flush_frame)

lemma flush_nothing:
  "quad_vertices s = [] \<Longrightarrow> line_vertices s = [] \<Longrightarrow> circle_indexCount s = 0 \<Longrightarrow> flush s = s"
  by (simp add: flush_only_quads flushQuad_empty)

lemma flush_indexCount: "quad_indexCount (flush s) = quad_indexCount s"
  by (simp add: flush_def flushQuad_def flushLine_def flushCircle_def)

text \<open>
  Claim C8, as amended. \<^verbatim>\<open>endScene\<close> only flushes: it leaves every batch (vertices,
  transforms, index counts, slot index) as it was. Each \<^verbatim>\<open>endScene\<close> issues one draw
  call per non-empty primitive kind, so a second \<^verbatim>\<open>endScene\<close> in a row issues zero
  additional draw calls when all batches are empty, as they are right after
  \<^verbatim>\<open>beginScene\<close>; otherwise it issues as many as the first did.
\<close>

theorem endScene_twice:
  "quad_vertices (endScene s) = quad_vertices s
   \<and> quad_transforms (endScene s) = quad_transforms s
   \<and> quad_indexCount (endScene s) = quad_indexCount s
   \<and> line_vertices (endScene s) = line_vertices s
   \<and> circle_vertices (endScene s) = circle_vertices s
   \<and> circle_indexCount (endScene s) = circle_indexCount s
   \<and> textureSlotIndex (endScene s) = textureSlotIndex s
   \<and> allDraws (device (endScene s)) = allDraws (device s) + nonEmptyKinds s
   \<and> allDraws (device (endScene (endScene s))) = allDraws (device (endScene s)) + nonEmptyKinds s
   \<and> (quad_vertices s = [] \<and> line_vertices s = [] \<and> circle_indexCount s = 0 \<longrightarrow>
        endScene s = s
      \<and> allDraws (device (endScene (endScene s))) = allDraws (device (endScene s)))
   \<and> allDraws (device (endScene (endScene (beginScene vp s))))
       = allDraws (device (endScene (beginScene vp s)))"
proof -
  have "nonEmptyKinds (beginScene vp s) = 0"
    by (simp add: nonEmptyKinds_def beginScene_fields)
  then show ?thesis
    by (simp add: endScene_def flush_frame flush_indexCount flush_allDraws nonEmptyKinds_flush
        flush_nothing)
qed

theorem endScene_twice_witness:
  "quad_vertices (beginScene Identity demo_state) = []
   \<and> line_vertices (beginScene Identity demo_state) = []
   \<and> circle_indexCount (beginScene Identity demo_state) = 0
   \<and> endScene (beginScene Identity demo_state) = beginScene Identity demo_state
   \<and> allDraws (device (endScene (endScene (beginScene Identity demo_state))))
       = allDraws (device (endScene (beginScene Identity demo_state)))"
  using endScene_twice [of "beginScene Identity demo_state" Identity]
  by (simp add: beginScene_fields)

theorem endScene_twice_counterexample:
  "allDraws (device (endScene (endScene demo_one_quad)))
     = allDraws (device (endScene demo_one_quad)) + 1"
proof -
  have "quad_vertices demo_one_quad \<noteq> []" "line_vertices demo_one_quad = []"
    "circle_indexCount demo_one_quad = 0"
    by (simp_all add: demo_one_quad_def drawQuad_def pushQuad_fields nextQuadBatch_fields
        beginScene_fields)
  then have "nonEmptyKinds demo_one_quad = 1"
    by (simp add: nonEmptyKinds_def)
  then show ?thesis
    by (simp add: endScene_def flush_allDraws nonEmptyKinds_flush)
qed

text \<open>
  Claim C5 at the input where the code departs from it: a scene with one circle. The
  flush issues the circle's draw call, and the draw-call statistic stays 0. A scene with
  one quad or one line counts its draw call.
\<close>

theorem flush_circle_not_counted:
  "allDraws (device (flush (drawCircle tr th fd c (beginScene vp s))))
     = allDraws (device (drawCircle tr th fd c (beginScene vp s))) + 1
   \<and> stats_drawCalls (flush (drawCircle tr th fd c (beginScene vp s))) = 0
   \<and> stats_drawCalls (flush (drawQuad p sz c (beginScene vp s))) = 1
   \<and> stats_drawCalls (flush (drawLine p1 p2 c (beginScene vp s))) = 1"
proof -
  let ?b = "beginScene vp s"
  let ?c = "drawCircle tr th fd c ?b"
  have c: "quad_vertices ?c = []" "line_vertices ?c = []" "circle_indexCount ?c = 6"
    "stats_drawCalls ?c = 0"
    by (simp_all add: drawCircle_def beginScene_fields)
  then have "nonEmptyKinds ?c = 1"
    by (simp add: nonEmptyKinds_def)
  then have a: "allDraws (device (flush ?c)) = allDraws (device ?c) + 1"
    by (simp add: flush_allDraws)
  have b: "stats_drawCalls (flush ?c) = 0"
    using c by (simp add: flush_def flushQuad_empty flushLine_empty flushCircle_frame)
  let ?q = "drawQuad p sz c ?b"
  have "?q = pushQuad p sz c 0 ?b"
    by (simp add: drawQuad_def beginScene_fields maxQuad_def)
  then have q: "quad_vertices ?q \<noteq> []" "line_vertices ?q = []" "circle_indexCount ?q = 0"
    "stats_drawCalls ?q = 0"
    by (simp_all add: pushQuad_fields beginScene_fields)
  have d: "stats_drawCalls (flush ?q) = 1"
    using q flushQuad_stats [OF q(1)] by (simp add: flush_only_quads)
  let ?l = "drawLine p1 p2 c ?b"
  have "stats_drawCalls (flush ?l) = 1"
    by (simp add: drawLine_def Let_def beginScene_fields maxQuad_def flush_def flushQuad_def
        flushLine_def flushCircle_def)
  with a b d show ?thesis by simp
qed

section \<open>Properties of the renderer: the textured overload\<close>

lemma findTexture_none: "findTexture slots 1 1 t = 0"
  by (simp add: findTexture.simps)

lemma drawQuads_below_slots:
  "length (quad_transforms s) + length qs \<le> maxQuad \<Longrightarrow>
     textureSlotIndex (drawQuads qs s) = textureSlotIndex s
   \<and> textureSlots (drawQuads qs s) = textureSlots s"
proof (induction qs arbitrary: s)
  case Nil
  then show ?case by (simp add: drawQuads_Nil)
next
  case (Cons q qs)
  obtain p sz c where q: "q = (p, sz, c)"
    by (cases q) auto
  from Cons.prems have below: "length (quad_transforms s) \<noteq> maxQuad"
    by auto
  from Cons.prems have "length (quad_transforms (pushQuad p sz c 0 s)) + length qs \<le> maxQuad"
    by (simp add: pushQuad_fields)
  from Cons.IH [OF this] show ?case
    by (simp add: q drawQuads_Cons drawQuad_below [OF below] pushQuad_fields)
qed

text \<open>
  Claim C2 at the input where the code departs from it: a quad batch filled to
  \<open>maxQuad\<close> by the untextured overload, then one call of the textured overload. The
  call returns, issues no draw call, and leaves \<open>maxQuad + 1\<close> transforms in the batch;
  the untextured overload at the same state rolls over and leaves one.
\<close>

theorem drawQuadTex_exceeds_maxQuad:
  "length (quad_transforms (drawQuads (replicate maxQuad q) (beginScene vp s))) = maxQuad
   \<and> (\<exists>s'. drawQuadTex p sz t c (drawQuads (replicate maxQuad q) (beginScene vp s)) = Inr s'
          \<and> length (quad_transforms s') = maxQuad + 1
          \<and> quadDraws (device s') = quadDraws (device s))
   \<and> length (quad_transforms
        (drawQuad p sz c (drawQuads (replicate maxQuad q) (beginScene vp s)))) = 1"
proof -
  let ?b = "beginScene vp s"
  let ?f = "drawQuads (replicate maxQuad q) ?b"
  have le: "length (quad_transforms ?b) + length (replicate maxQuad q) \<le> maxQuad"
    by (simp add: beginScene_fields)
  from drawQuads_below [OF le] drawQuads_below_slots [OF le]
  have f: "length (quad_transforms ?f) = maxQuad" "device ?f = device ?b"
    "textureSlotIndex ?f = 1"
    by (simp_all add: beginScene_fields)
  let ?s' = "pushQuad p sz c (unat (textureSlotIndex ?f)) (assignSlot t ?f)"
  have "drawQuadTex p sz t c ?f = Inr ?s'"
    by (simp add: drawQuadTex_Inr f findTexture_none maxTextureSlots_def)
  moreover have "length (quad_transforms ?s') = maxQuad + 1"
    by (simp add: pushQuad_fields assignSlot_frame f)
  moreover have "quadDraws (device ?s') = quadDraws (device s)"
    by (simp add: pushQuad_fields assignSlot_frame f draws_beginScene)
  moreover have "length (quad_transforms (drawQuad p sz c ?f)) = 1"
    by (simp add: drawQuad_full [OF f(1)] pushQuad_fields nextQuadBatch_fields)
  ultimately show ?thesis
    using f(1) by blast
qed

section \<open>Properties of the renderer: the texture slot table\<close>

lemma unat_Suc_less:
  fixes i n :: "32 word"
  assumes "i < n"
  shows "unat (i + 1) = Suc (unat i)"
proof -
  have a: "unat i < unat n"
    using assms by (simp add: word_less_nat_alt)
  have "unat n < 2 ^ 32"
    using unsigned_less [of n] by simp
  with a have "unat i + unat (1 :: 32 word) < 2 ^ LENGTH(32)"
    by simp
  then have "unat (i + 1) = unat i + unat (1 :: 32 word)"
    by (simp only: unat_add_lem)
  then show ?thesis by simp
qed

lemma findTexture_absent:
  "(\<And>k. unat i \<le> k \<Longrightarrow> k < unat n \<Longrightarrow> slots k \<noteq> Some t) \<Longrightarrow> findTexture slots i n t = 0"
proof (induction slots i n t rule: findTexture.induct)
  case (1 slots i n t)
  show ?case
  proof (cases "i < n")
    case True
    then have lt: "unat i < unat n"
      by (simp add: word_less_nat_alt)
    with "1.prems" have here: "slots (unat i) \<noteq> Some t"
      by simp
    have "findTexture slots (i + 1) n t = 0"
    proof (rule "1.IH" [OF True here])
      fix k
      assume "unat (i + 1) \<le> k" "k < unat n"
      then show "slots k \<noteq> Some t"
        using "1.prems" [of k] unat_Suc_less [OF True] by simp
    qed
    with True here show ?thesis
      by (simp add: findTexture.simps [of slots i])
  next
    case False
    then show ?thesis
      by (simp add: findTexture.simps [of slots i])
  qed
qed

lemma findTexture_present:
  "0 < unat i \<Longrightarrow> \<exists>k. unat i \<le> k \<and> k < unat n \<and> slots k = Some t \<Longrightarrow>
     unat i \<le> findTexture slots i n t \<and> findTexture slots i n t < unat n
   \<and> slots (findTexture slots i n t) = Some t"
proof (induction slots i n t rule: findTexture.induct)
  case (1 slots i n t)
  from "1.prems"(2) obtain k where k: "unat i \<le> k" "k < unat n" "slots k = Some t"
    by blast
  then have "unat i < unat n" by simp
  then have less: "i < n"
    by (simp add: word_less_nat_alt)
  show ?case
  proof (cases "slots (unat i) = Some t")
    case True
    with less \<open>unat i < unat n\<close> show ?thesis
      by (simp add: findTexture.simps [of slots i])
  next
    case False
    with k have "unat i \<noteq> k" by auto
    with k unat_Suc_less [OF less] have "unat (i + 1) \<le> k"
      by simp
    with k have ex: "\<exists>k. unat (i + 1) \<le> k \<and> k < unat n \<and> slots k = Some t"
      by blast
    have pos: "0 < unat (i + 1)"
      using unat_Suc_less [OF less] by simp
    from "1.IH" [OF less False pos ex] unat_Suc_less [OF less] less False
    show ?thesis
      by (simp add: findTexture.simps [of slots i])
  qed
qed

lemma assignSlot_slots:
  "textureSlotIndex (assignSlot t s) = textureSlotIndex s + 1"
  "textureSlots (assignSlot t s) = (textureSlots s)(unat (textureSlotIndex s) := Some t)"
  by (simp_all add: assignSlot_def)

lemma maxTextureSlots_unat: "textureSlotIndex s = maxTextureSlots \<Longrightarrow> unat (textureSlotIndex s) = 32"
  by (simp add: maxTextureSlots_def)

lemma drawQuadTex_fresh:
  assumes room: "unat (textureSlotIndex s) < 32"
    and absent: "\<And>k. 1 \<le> k \<Longrightarrow> k < unat (textureSlotIndex s) \<Longrightarrow> textureSlots s k \<noteq> Some t"
  shows "drawQuadTex p sz t c s
       = Inr (pushQuad p sz c (unat (textureSlotIndex s)) (assignSlot t s))"
proof -
  have "findTexture (textureSlots s) 1 (textureSlotIndex s) t = 0"
    by (rule findTexture_absent) (simp add: absent)
  moreover from room have "textureSlotIndex s \<noteq> maxTextureSlots"
    using maxTextureSlots_unat [of s] by auto
  ultimately show ?thesis
    by (simp add: drawQuadTex_Inr)
qed

lemma drawQuadTex_full:
  assumes full: "textureSlotIndex s = maxTextureSlots"
    and absent: "\<And>k. 1 \<le> k \<Longrightarrow> k < unat (textureSlotIndex s) \<Longrightarrow> textureSlots s k \<noteq> Some t"
  shows "drawQuadTex p sz t c s = Inr (pushQuad p sz c 1 (assignSlot t (nextQuadBatch s)))"
proof -
  have "findTexture (textureSlots s) 1 (textureSlotIndex s) t = 0"
    by (rule findTexture_absent) (simp add: absent)
  with full show ?thesis
    by (simp add: drawQuadTex_Inr nextQuadBatch_fields)
qed

lemma drawQuadTex_reuse:
  assumes "\<exists>k. 1 \<le> k \<and> k < unat (textureSlotIndex s) \<and> textureSlots s k = Some t"
  shows "1 \<le> findTexture (textureSlots s) 1 (textureSlotIndex s) t
       \<and> findTexture (textureSlots s) 1 (textureSlotIndex s) t < unat (textureSlotIndex s)
       \<and> textureSlots s (findTexture (textureSlots s) 1 (textureSlotIndex s) t) = Some t
       \<and> drawQuadTex p sz t c s
           = Inr (pushQuad p sz c (findTexture (textureSlots s) 1 (textureSlotIndex s) t) s)"
proof -
  have "0 < unat (1 :: 32 word)" by simp
  moreover from assms
  have "\<exists>k. unat (1 :: 32 word) \<le> k \<and> k < unat (textureSlotIndex s) \<and> textureSlots s k = Some t"
    by simp
  ultimately have found:
    "unat (1 :: 32 word) \<le> findTexture (textureSlots s) 1 (textureSlotIndex s) t
     \<and> findTexture (textureSlots s) 1 (textureSlotIndex s) t < unat (textureSlotIndex s)
     \<and> textureSlots s (findTexture (textureSlots s) 1 (textureSlotIndex s) t) = Some t"
    by (rule findTexture_present)
  then have "findTexture (textureSlots s) 1 (textureSlotIndex s) t \<noteq> 0"
    by auto
  then have "drawQuadTex p sz t c s
      = Inr (pushQuad p sz c (findTexture (textureSlots s) 1 (textureSlotIndex s) t) s)"
    by (simp add: drawQuadTex_Inr)
  with found show ?thesis by simp
qed

lemma run_fresh:
  assumes "distinct (map fst as)"
    and "unat (textureSlotIndex s) + length as \<le> 32"
    and "\<And>k. 1 \<le> k \<Longrightarrow> k < unat (textureSlotIndex s) \<Longrightarrow> textureSlots s k \<in> Some ` U"
    and "U \<inter> set (map fst as) = {}"
  shows "\<exists>s'. run (map texCall as) s = Inr s'
            \<and> unat (textureSlotIndex s') = unat (textureSlotIndex s) + length as
            \<and> (\<forall>k. 1 \<le> k \<and> k < unat (textureSlotIndex s')
                  \<longrightarrow> textureSlots s' k \<in> Some ` (U \<union> set (map fst as)))
            \<and> device s' = device s
            \<and> stats_drawCalls s' = stats_drawCalls s
            \<and> stats_quadCount s' = stats_quadCount s
            \<and> length (quad_vertices s') = length (quad_vertices s) + 4 * length as
            \<and> length (quad_transforms s') = length (quad_transforms s) + length as
            \<and> line_vertices s' = line_vertices s
            \<and> circle_indexCount s' = circle_indexCount s"
  using assms
proof (induction as arbitrary: s U)
  case Nil
  then show ?case by simp
next
  case (Cons a as)
  obtain t p sz c where a: "a = (t, p, sz, c)"
    by (cases a) auto
  from Cons.prems(2) have room: "unat (textureSlotIndex s) < 32"
    by simp
  from Cons.prems(4) have tU: "t \<notin> U"
    by (simp add: a)
  have absent: "\<And>k. 1 \<le> k \<Longrightarrow> k < unat (textureSlotIndex s) \<Longrightarrow> textureSlots s k \<noteq> Some t"
  proof -
    fix k
    assume "1 \<le> k" "k < unat (textureSlotIndex s)"
    from Cons.prems(3) [OF this] tU show "textureSlots s k \<noteq> Some t"
      by auto
  qed
  let ?s = "pushQuad p sz c (unat (textureSlotIndex s)) (assignSlot t s)"
  have step: "drawQuadTex p sz t c s = Inr ?s"
    by (rule drawQuadTex_fresh [OF room absent])
  have idx: "unat (textureSlotIndex ?s) = Suc (unat (textureSlotIndex s))"
    by (simp add: pushQuad_fields assignSlot_slots unat_Suc_32 [OF room])
  have slots: "textureSlots ?s = (textureSlots s)(unat (textureSlotIndex s) := Some t)"
    by (simp add: pushQuad_fields assignSlot_slots)
  have p1: "distinct (map fst as)"
    using Cons.prems(1) by simp
  have p2: "unat (textureSlotIndex ?s) + length as \<le> 32"
    using Cons.prems(2) idx by simp
  have p3: "\<And>k. 1 \<le> k \<Longrightarrow> k < unat (textureSlotIndex ?s)
      \<Longrightarrow> textureSlots ?s k \<in> Some ` (insert t U)"
  proof -
    fix k
    assume k: "1 \<le> k" "k < unat (textureSlotIndex ?s)"
    show "textureSlots ?s k \<in> Some ` (insert t U)"
    proof (cases "k = unat (textureSlotIndex s)")
      case True
      then show ?thesis by (simp add: slots)
    next
      case False
      with k idx have "k < unat (textureSlotIndex s)" by simp
      from Cons.prems(3) [OF k(1) this] False show ?thesis
        by (auto simp: slots)
    qed
  qed
  have p4: "insert t U \<inter> set (map fst as) = {}"
    using Cons.prems(1,4) by (auto simp: a)
  from Cons.IH [OF p1 p2 p3 p4] obtain s' where s':
    "run (map texCall as) ?s = Inr s'"
    "unat (textureSlotIndex s') = unat (textureSlotIndex ?s) + length as"
    "\<forall>k. 1 \<le> k \<and> k < unat (textureSlotIndex s')
        \<longrightarrow> textureSlots s' k \<in> Some ` (insert t U \<union> set (map fst as))"
    "device s' = device ?s" "stats_drawCalls s' = stats_drawCalls ?s"
    "stats_quadCount s' = stats_quadCount ?s"
    "length (quad_vertices s') = length (quad_vertices ?s) + 4 * length as"
    "length (quad_transforms s') = length (quad_transforms ?s) + length as"
    "line_vertices s' = line_vertices ?s" "circle_indexCount s' = circle_indexCount ?s"
    by blast
  have r: "run (map texCall (a # as)) s = Inr s'"
    using step s'(1) by (simp add: a texCall_def)
  have u: "insert t U \<union> set (map fst as) = U \<union> set (map fst (a # as))"
    by (auto simp: a)
  from s' idx have rest:
    "unat (textureSlotIndex s') = unat (textureSlotIndex s) + length (a # as)"
    "device s' = device s" "stats_drawCalls s' = stats_drawCalls s"
    "stats_quadCount s' = stats_quadCount s"
    "length (quad_vertices s') = length (quad_vertices s) + 4 * length (a # as)"
    "length (quad_transforms s') = length (quad_transforms s) + length (a # as)"
    "line_vertices s' = line_vertices s" "circle_indexCount s' = circle_indexCount s"
    by (simp_all add: pushQuad_fields assignSlot_frame)
  from s'(3) have "\<forall>k. 1 \<le> k \<and> k < unat (textureSlotIndex s')
        \<longrightarrow> textureSlots s' k \<in> Some ` (U \<union> set (map fst (a # as)))"
    unfolding u .
  with r rest show ?case
    by blast
qed

lemma split_33:
  assumes "length (xs :: 'a list) = 33"
  shows "xs = take 31 xs @ [xs ! 31, xs ! 32]" and "take 32 xs = take 31 xs @ [xs ! 31]"
proof -
  have a: "drop (Suc 32) xs = []"
    using assms by simp
  have "drop 32 xs = xs ! 32 # drop (Suc 32) xs"
    by (rule Cons_nth_drop_Suc [symmetric]) (simp add: assms)
  with a have "drop 32 xs = [xs ! 32]"
    by simp
  then have b: "drop (Suc 31) xs = [xs ! 32]"
    by simp
  have "drop 31 xs = xs ! 31 # drop (Suc 31) xs"
    by (rule Cons_nth_drop_Suc [symmetric]) (simp add: assms)
  with b have "drop 31 xs = [xs ! 31, xs ! 32]"
    by simp
  then show "xs = take 31 xs @ [xs ! 31, xs ! 32]"
    using append_take_drop_id [of 31 xs] by simp
  have e: "(32 :: nat) = Suc 31"
    by simp
  show "take 32 xs = take 31 xs @ [xs ! 31]"
    by (subst e) (rule take_Suc_conv_app_nth, simp add: assms)
qed

lemma unat_32_eq:
  fixes x :: "32 word"
  shows "unat x = 32 \<Longrightarrow> x = maxTextureSlots"
  by (simp add: word_unat_eq_iff maxTextureSlots_def)

text \<open>
  Claim C3. In one scene, textured \<^verbatim>\<open>drawQuad\<close> calls with 33 pairwise-distinct
  textures issue exactly one implicit quad-batch flush over the whole sequence, and
  every call returns without an error. The table holds the default texture and 31 others:
  the first 31 calls fill it without a flush, the 32nd call finds it full,
  flushes and resets, and takes slot 1; the 33rd texture is accepted into slot 2 of
  the reset table with no further flush.
\<close>

theorem texture_slot_exhaustion:
  assumes len: "length as = 33" and dist: "distinct (map fst as)"
  shows "\<exists>s31 s32 s33.
           run (BeginScene vp # map texCall (take 31 as)) s = Inr s31
         \<and> run (BeginScene vp # map texCall (take 32 as)) s = Inr s32
         \<and> run (BeginScene vp # map texCall as) s = Inr s33
         \<and> quadDraws (device s31) = quadDraws (device s)
         \<and> textureSlotIndex s31 = maxTextureSlots
         \<and> quadDraws (device s32) = quadDraws (device s) + 1
         \<and> textureSlotIndex s32 = 2
         \<and> textureSlots s32 1 = Some (fst (as ! 31))
         \<and> quadDraws (device s33) = quadDraws (device s) + 1
         \<and> allDraws (device s33) = allDraws (device s) + 1
         \<and> stats_drawCalls s33 = 1
         \<and> textureSlotIndex s33 = 3
         \<and> textureSlots s33 1 = Some (fst (as ! 31))
         \<and> textureSlots s33 2 = Some (fst (as ! 32))
         \<and> length (quad_transforms s33) = 2"
proof -
  let ?as = "take 31 as"
  obtain t32 p32 sz32 c32 where a32: "as ! 31 = (t32, p32, sz32, c32)"
    by (cases "as ! 31") auto
  obtain t33 p33 sz33 c33 where a33: "as ! 32 = (t33, p33, sz33, c33)"
    by (cases "as ! 32") auto
  note split = split_33 [OF len]
  from dist have "distinct (map fst (?as @ [as ! 31, as ! 32]))"
    using split(1) by simp
  then have d31: "distinct (map fst ?as)" and new32: "t32 \<notin> set (map fst ?as)"
    and new33: "t33 \<noteq> t32"
    by (auto simp: a32 a33)
  let ?b = "beginScene vp s"
  have l31: "length ?as = 31"
    using len by simp
  have q1: "unat (textureSlotIndex ?b) + length ?as \<le> 32"
    by (simp add: beginScene_fields l31)
  have q2: "\<And>k. 1 \<le> k \<Longrightarrow> k < unat (textureSlotIndex ?b) \<Longrightarrow> textureSlots ?b k \<in> Some ` {}"
    by (simp add: beginScene_fields)
  have q3: "{} \<inter> set (map fst ?as) = {}"
    by simp
  from run_fresh [OF d31 q1 q2 q3] obtain s31 where raw:
    "run (map texCall ?as) ?b = Inr s31"
    "unat (textureSlotIndex s31) = unat (textureSlotIndex ?b) + length ?as"
    "\<forall>k. 1 \<le> k \<and> k < unat (textureSlotIndex s31)
        \<longrightarrow> textureSlots s31 k \<in> Some ` ({} \<union> set (map fst ?as))"
    "device s31 = device ?b" "stats_drawCalls s31 = stats_drawCalls ?b"
    "length (quad_vertices s31) = length (quad_vertices ?b) + 4 * length ?as"
    "line_vertices s31 = line_vertices ?b" "circle_indexCount s31 = circle_indexCount ?b"
    by blast
  have s31:
    "run (map texCall ?as) ?b = Inr s31"
    "unat (textureSlotIndex s31) = 32"
    "\<forall>k. 1 \<le> k \<and> k < unat (textureSlotIndex s31) \<longrightarrow> textureSlots s31 k \<in> Some ` set (map fst ?as)"
    "device s31 = device ?b" "stats_drawCalls s31 = 0"
    "length (quad_vertices s31) = 124"
    "line_vertices s31 = []" "circle_indexCount s31 = 0"
    using raw(1) apply simp
    using raw(2) l31 apply (simp add: beginScene_fields)
    using raw(3) apply simp
    using raw(4) apply simp
    using raw(5) apply (simp add: beginScene_fields)
    using raw(6) l31 apply (simp add: beginScene_fields)
    using raw(7) apply (simp add: beginScene_fields)
    using raw(8) apply (simp add: beginScene_fields)
    done
  have full: "textureSlotIndex s31 = maxTextureSlots"
    by (rule unat_32_eq [OF s31(2)])
  have ne31: "quad_vertices s31 \<noteq> []"
    using s31(6) by auto
  have absent32: "\<And>k. 1 \<le> k \<Longrightarrow> k < unat (textureSlotIndex s31) \<Longrightarrow> textureSlots s31 k \<noteq> Some t32"
  proof -
    fix k :: nat
    assume "1 \<le> k" "k < unat (textureSlotIndex s31)"
    with s31(3) have "textureSlots s31 k \<in> Some ` set (map fst ?as)"
      by blast
    then obtain u where "u \<in> set (map fst ?as)" "textureSlots s31 k = Some u"
      by blast
    with new32 show "textureSlots s31 k \<noteq> Some t32"
      by auto
  qed
  let ?n = "nextQuadBatch s31"
  let ?s32 = "pushQuad p32 sz32 c32 1 (assignSlot t32 ?n)"
  have step32: "drawQuadTex p32 sz32 t32 c32 s31 = Inr ?s32"
    by (rule drawQuadTex_full [OF full absent32])
  have i32: "textureSlotIndex ?s32 = 2" "textureSlots ?s32 1 = Some t32"
    by (simp_all add: pushQuad_fields assignSlot_slots nextQuadBatch_fields)
  have dv32: "quadDraws (device ?s32) = quadDraws (device s) + 1"
    "allDraws (device ?s32) = allDraws (device s) + 1"
    by (simp_all add: pushQuad_fields assignSlot_frame nextQuadBatch_fields
        flushQuad_device [OF ne31] s31(4) draws_beginScene)
  have st32: "stats_drawCalls ?s32 = 1"
    using flushQuad_stats [OF ne31] s31(5)
    by (simp add: pushQuad_fields assignSlot_frame nextQuadBatch_fields)
  have tr32: "length (quad_transforms ?s32) = 1"
    by (simp add: pushQuad_fields assignSlot_frame nextQuadBatch_fields)
  have room33: "unat (textureSlotIndex ?s32) < 32"
    using i32(1) by simp
  have absent33: "\<And>k. 1 \<le> k \<Longrightarrow> k < unat (textureSlotIndex ?s32) \<Longrightarrow> textureSlots ?s32 k \<noteq> Some t33"
  proof -
    fix k :: nat
    assume "1 \<le> k" "k < unat (textureSlotIndex ?s32)"
    then have "k = 1" using i32(1) by simp
    with new33 show "textureSlots ?s32 k \<noteq> Some t33"
      using i32(2) by simp
  qed
  let ?s33 = "pushQuad p33 sz33 c33 (unat (textureSlotIndex ?s32)) (assignSlot t33 ?s32)"
  have step33: "drawQuadTex p33 sz33 t33 c33 ?s32 = Inr ?s33"
    by (rule drawQuadTex_fresh [OF room33 absent33])
  have i33: "textureSlotIndex ?s33 = 3" "textureSlots ?s33 1 = Some t32"
    "textureSlots ?s33 2 = Some t33"
    using i32 by (simp_all add: pushQuad_fields [of p33] assignSlot_slots [of t33])
  have dv33: "quadDraws (device ?s33) = quadDraws (device s) + 1"
    "allDraws (device ?s33) = allDraws (device s) + 1"
    using dv32 by (simp_all add: pushQuad_fields [of p33] assignSlot_frame [of t33])
  have st33: "stats_drawCalls ?s33 = 1" "length (quad_transforms ?s33) = 2"
    using st32 tr32 by (simp_all add: pushQuad_fields [of p33] assignSlot_frame [of t33])
  have r31: "run (BeginScene vp # map texCall ?as) s = Inr s31"
    using s31(1) by simp
  have r32: "run (BeginScene vp # map texCall (take 32 as)) s = Inr ?s32"
    using s31(1) step32
    by (simp add: split(2) run_append a32 texCall_def)
  have "run (BeginScene vp # map texCall (?as @ [as ! 31, as ! 32])) s = Inr ?s33"
    using s31(1) step32 step33
    by (simp add: run_append a32 a33 texCall_def)
  then have r33: "run (BeginScene vp # map texCall as) s = Inr ?s33"
    using split(1) by simp
  have d31: "quadDraws (device s31) = quadDraws (device s)"
    by (simp add: s31(4) draws_beginScene)
  from r31 r32 r33 d31 full dv32 i32 dv33 st33 i33 show ?thesis
    unfolding a32 a33 fst_conv by blast
qed

theorem texture_slot_exhaustion_witness:
  "length demo_textured = 33 \<and> distinct (map fst demo_textured)
   \<and> fst (demo_textured ! 31) = Texture2D 31 \<and> fst (demo_textured ! 32) = Texture2D 32
   \<and> (\<exists>s31 s32 s33.
           run (BeginScene Identity # map texCall (take 31 demo_textured)) demo_state = Inr s31
         \<and> run (BeginScene Identity # map texCall (take 32 demo_textured)) demo_state = Inr s32
         \<and> run (BeginScene Identity # map texCall demo_textured) demo_state = Inr s33
         \<and> quadDraws (device s31) = quadDraws (device demo_state)
         \<and> textureSlotIndex s31 = maxTextureSlots
         \<and> quadDraws (device s32) = quadDraws (device demo_state) + 1
         \<and> textureSlotIndex s32 = 2
         \<and> textureSlots s32 1 = Some (fst (demo_textured ! 31))
         \<and> quadDraws (device s33) = quadDraws (device demo_state) + 1
         \<and> allDraws (device s33) = allDraws (device demo_state) + 1
         \<and> stats_drawCalls s33 = 1
         \<and> textureSlotIndex s33 = 3
         \<and> textureSlots s33 1 = Some (fst (demo_textured ! 31))
         \<and> textureSlots s33 2 = Some (fst (demo_textured ! 32))
         \<and> length (quad_transforms s33) = 2)"
proof -
  have len: "length demo_textured = 33"
    by (simp add: demo_textured_def)
  have dist: "distinct (map fst demo_textured)"
    by (simp add: demo_textured_def distinct_map o_def inj_on_def)
  have nth: "fst (demo_textured ! 31) = Texture2D 31" "fst (demo_textured ! 32) = Texture2D 32"
    by (simp_all add: demo_textured_def)
  from len dist nth texture_slot_exhaustion [OF len dist, of Identity demo_state]
  show ?thesis by blast
qed

lemma findTexture_first: "slots 1 = Some t \<Longrightarrow> findTexture slots 1 2 t = 1"
  by (simp add: findTexture.simps [of slots 1])

lemma run_same:
  assumes "textureSlotIndex s = 2" and "textureSlots s 1 = Some t"
  shows "\<exists>s'. run (map (\<lambda>q. texCall (t, q)) qs) s = Inr s'
            \<and> textureSlotIndex s' = 2 \<and> textureSlots s' 1 = Some t
            \<and> device s' = device s
            \<and> stats_drawCalls s' = stats_drawCalls s
            \<and> stats_quadCount s' = stats_quadCount s
            \<and> length (quad_vertices s') = length (quad_vertices s) + 4 * length qs
            \<and> length (quad_transforms s') = length (quad_transforms s) + length qs
            \<and> line_vertices s' = line_vertices s
            \<and> circle_indexCount s' = circle_indexCount s"
  using assms
proof (induction qs arbitrary: s)
  case Nil
  then show ?case by simp
next
  case (Cons q qs)
  obtain p sz c where q: "q = (p, sz, c)"
    by (cases q) auto
  let ?s = "pushQuad p sz c 1 s"
  have step: "drawQuadTex p sz t c s = Inr ?s"
    using Cons.prems by (simp add: drawQuadTex_Inr findTexture_first)
  have "textureSlotIndex ?s = 2" "textureSlots ?s 1 = Some t"
    using Cons.prems by (simp_all add: pushQuad_fields)
  from Cons.IH [OF this] obtain s' where s':
    "run (map (\<lambda>q. texCall (t, q)) qs) ?s = Inr s'"
    "textureSlotIndex s' = 2" "textureSlots s' 1 = Some t"
    "device s' = device ?s" "stats_drawCalls s' = stats_drawCalls ?s"
    "stats_quadCount s' = stats_quadCount ?s"
    "length (quad_vertices s') = length (quad_vertices ?s) + 4 * length qs"
    "length (quad_transforms s') = length (quad_transforms ?s) + length qs"
    "line_vertices s' = line_vertices ?s" "circle_indexCount s' = circle_indexCount ?s"
    by blast
  have r: "run (map (\<lambda>q. texCall (t, q)) (q # qs)) s = Inr s'"
    using step s'(1) by (simp add: q texCall_def)
  from s' have
    "device s' = device s" "stats_drawCalls s' = stats_drawCalls s"
    "stats_quadCount s' = stats_quadCount s"
    "length (quad_vertices s') = length (quad_vertices s) + 4 * length (q # qs)"
    "length (quad_transforms s') = length (quad_transforms s) + length (q # qs)"
    "line_vertices s' = line_vertices s" "circle_indexCount s' = circle_indexCount s"
    by (simp_all add: pushQuad_fields)
  with r s'(2,3) show ?case
    by blast
qed

lemma run_scene_same:
  "\<exists>s'. run (BeginScene vp # map (\<lambda>q. texCall (t, q)) qs) s = Inr s'
       \<and> textureSlotIndex s' \<le> 2
       \<and> (qs \<noteq> [] \<longrightarrow> textureSlotIndex s' = 2 \<and> textureSlots s' 1 = Some t)
       \<and> device s' = device (beginScene vp s)
       \<and> stats_drawCalls s' = 0 \<and> stats_quadCount s' = 0
       \<and> length (quad_vertices s') = 4 * length qs
       \<and> length (quad_transforms s') = length qs
       \<and> line_vertices s' = [] \<and> circle_indexCount s' = 0"
proof (cases qs)
  case Nil
  then show ?thesis
    by (simp add: beginScene_fields)
next
  case (Cons q rest)
  obtain p sz c where q: "q = (p, sz, c)"
    by (cases q) auto
  let ?b = "beginScene vp s"
  let ?s1 = "pushQuad p sz c (unat (textureSlotIndex ?b)) (assignSlot t ?b)"
  have "drawQuadTex p sz t c ?b = Inr ?s1"
    by (rule drawQuadTex_fresh) (simp_all add: beginScene_fields)
  then have first: "run [BeginScene vp, texCall (t, q)] s = Inr ?s1"
    by (simp add: q texCall_def)
  have f: "textureSlotIndex ?s1 = 2" "textureSlots ?s1 1 = Some t"
    "device ?s1 = device ?b" "stats_drawCalls ?s1 = 0" "stats_quadCount ?s1 = 0"
    "length (quad_vertices ?s1) = 4" "length (quad_transforms ?s1) = 1"
    "line_vertices ?s1 = []" "circle_indexCount ?s1 = 0"
    by (simp_all add: pushQuad_fields assignSlot_slots assignSlot_frame beginScene_fields)
  from run_same [OF f(1,2), of rest] obtain s' where s':
    "run (map (\<lambda>q. texCall (t, q)) rest) ?s1 = Inr s'"
    "textureSlotIndex s' = 2" "textureSlots s' 1 = Some t"
    "device s' = device ?s1" "stats_drawCalls s' = stats_drawCalls ?s1"
    "stats_quadCount s' = stats_quadCount ?s1"
    "length (quad_vertices s') = length (quad_vertices ?s1) + 4 * length rest"
    "length (quad_transforms s') = length (quad_transforms ?s1) + length rest"
    "line_vertices s' = line_vertices ?s1" "circle_indexCount s' = circle_indexCount ?s1"
    by blast
  have "run ([BeginScene vp, texCall (t, q)] @ map (\<lambda>q. texCall (t, q)) rest) s = Inr s'"
    using first s'(1) by (simp only: run_append sum.case)
  then have r: "run (BeginScene vp # map (\<lambda>q. texCall (t, q)) qs) s = Inr s'"
    by (simp add: Cons)
  from s' f have
    "textureSlotIndex s' \<le> 2" "device s' = device ?b"
    "stats_drawCalls s' = 0" "stats_quadCount s' = 0"
    "length (quad_vertices s') = 4 * length qs" "length (quad_transforms s') = length qs"
    "line_vertices s' = []" "circle_indexCount s' = 0"
    by (simp_all add: Cons)
  with r s'(2,3) show ?thesis
    by blast
qed

text \<open>
  Claim C4. A textured \<^verbatim>\<open>drawQuad\<close> whose texture is already bound in the batch
  takes the slot found by the lookup (comparison of identities) and leaves the slot table
  and the slot index as they were. Drawing one texture any positive number of times in a
  scene (64 times in particular) issues exactly one quad draw call, at \<^verbatim>\<open>endScene\<close>,
  and after every call the slot index is at most 2: slot 0 and one slot more.
\<close>

theorem texture_slot_reuse:
  assumes "qs \<noteq> []"
  shows "((\<exists>k. 1 \<le> k \<and> k < unat (textureSlotIndex s) \<and> textureSlots s k = Some t) \<longrightarrow>
           (\<exists>k. 1 \<le> k \<and> k < unat (textureSlotIndex s) \<and> textureSlots s k = Some t
               \<and> drawQuadTex p sz t c s = Inr (pushQuad p sz c k s)
               \<and> textureSlots (pushQuad p sz c k s) = textureSlots s
               \<and> textureSlotIndex (pushQuad p sz c k s) = textureSlotIndex s
               \<and> device (pushQuad p sz c k s) = device s))
       \<and> (\<forall>m \<le> length qs. \<exists>sm.
             run (BeginScene vp # map (\<lambda>q. texCall (t, q)) (take m qs)) s0 = Inr sm
           \<and> textureSlotIndex sm \<le> 2
           \<and> quadDraws (device sm) = quadDraws (device s0))
       \<and> (\<exists>s'. run (BeginScene vp # map (\<lambda>q. texCall (t, q)) qs @ [EndScene]) s0 = Inr s'
               \<and> quadDraws (device s') = quadDraws (device s0) + 1
               \<and> allDraws (device s') = allDraws (device s0) + 1
               \<and> stats_drawCalls s' = 1
               \<and> stats_quadCount s' = length qs
               \<and> textureSlotIndex s' = 2
               \<and> textureSlots s' 1 = Some t)"
proof (intro conjI impI allI)
  assume "\<exists>k. 1 \<le> k \<and> k < unat (textureSlotIndex s) \<and> textureSlots s k = Some t"
  from drawQuadTex_reuse [OF this, of p sz c]
  show "\<exists>k. 1 \<le> k \<and> k < unat (textureSlotIndex s) \<and> textureSlots s k = Some t
          \<and> drawQuadTex p sz t c s = Inr (pushQuad p sz c k s)
          \<and> textureSlots (pushQuad p sz c k s) = textureSlots s
          \<and> textureSlotIndex (pushQuad p sz c k s) = textureSlotIndex s
          \<and> device (pushQuad p sz c k s) = device s"
    by (auto simp: pushQuad_fields)
next
  fix m
  assume "m \<le> length qs"
  from run_scene_same [of vp t "take m qs" s0]
  show "\<exists>sm. run (BeginScene vp # map (\<lambda>q. texCall (t, q)) (take m qs)) s0 = Inr sm
           \<and> textureSlotIndex sm \<le> 2
           \<and> quadDraws (device sm) = quadDraws (device s0)"
    by (auto simp: draws_beginScene)
next
  from run_scene_same [of vp t qs s0] assms obtain s1 where s1:
    "run (BeginScene vp # map (\<lambda>q. texCall (t, q)) qs) s0 = Inr s1"
    "textureSlotIndex s1 = 2" "textureSlots s1 1 = Some t"
    "device s1 = device (beginScene vp s0)"
    "stats_drawCalls s1 = 0" "stats_quadCount s1 = 0"
    "length (quad_vertices s1) = 4 * length qs"
    "length (quad_transforms s1) = length qs"
    "line_vertices s1 = []" "circle_indexCount s1 = 0"
    by blast
  from s1(7) assms have ne: "quad_vertices s1 \<noteq> []"
    by auto
  have fl: "flush s1 = flushQuad s1"
    by (rule flush_only_quads [OF s1(9,10)])
  have r: "run ((BeginScene vp # map (\<lambda>q. texCall (t, q)) qs) @ [EndScene]) s0
      = Inr (flushQuad s1)"
    using s1(1) by (simp only: run_append sum.case) (simp add: endScene_def fl)
  have "quadDraws (device (flushQuad s1)) = quadDraws (device s0) + 1"
    "allDraws (device (flushQuad s1)) = allDraws (device s0) + 1"
    "stats_drawCalls (flushQuad s1) = 1" "stats_quadCount (flushQuad s1) = length qs"
    "textureSlotIndex (flushQuad s1) = 2" "textureSlots (flushQuad s1) 1 = Some t"
    using flushQuad_device [OF ne] flushQuad_stats [OF ne] s1
    by (simp_all add: draws_beginScene flushQuad_frame)
  with r show "\<exists>s'. run (BeginScene vp # map (\<lambda>q. texCall (t, q)) qs @ [EndScene]) s0 = Inr s'
               \<and> quadDraws (device s') = quadDraws (device s0) + 1
               \<and> allDraws (device s') = allDraws (device s0) + 1
               \<and> stats_drawCalls s' = 1
               \<and> stats_quadCount s' = length qs
               \<and> textureSlotIndex s' = 2
               \<and> textureSlots s' 1 = Some t"
    by auto
qed

theorem texture_slot_reuse_witness:
  "replicate 64 demo_quad \<noteq> []
   \<and> (\<exists>k. 1 \<le> k \<and> k < unat (textureSlotIndex demo_bound)
          \<and> textureSlots demo_bound k = Some (Texture2D 7)
          \<and> drawQuadTex (0, 0, 0) (1, 1) (Texture2D 7) (1, 1, 1, 1) demo_bound
               = Inr (pushQuad (0, 0, 0) (1, 1) (1, 1, 1, 1) k demo_bound))
   \<and> (\<exists>sm. run (BeginScene Identity
                   # map (\<lambda>q. texCall (Texture2D 7, q)) (take 64 (replicate 64 demo_quad)))
               demo_state = Inr sm
          \<and> textureSlotIndex sm \<le> 2)
   \<and> (\<exists>s'. run (BeginScene Identity
                   # map (\<lambda>q. texCall (Texture2D 7, q)) (replicate 64 demo_quad) @ [EndScene])
               demo_state = Inr s'
          \<and> quadDraws (device s') = quadDraws (device demo_state) + 1
          \<and> stats_drawCalls s' = 1
          \<and> stats_quadCount s' = 64
          \<and> textureSlotIndex s' = 2)"
proof -
  have ne: "replicate 64 demo_quad \<noteq> []"
    by simp
  have bound: "\<exists>k. 1 \<le> k \<and> k < unat (textureSlotIndex demo_bound)
      \<and> textureSlots demo_bound k = Some (Texture2D 7)"
  proof (intro exI conjI)
    show "(1 :: nat) \<le> 1" by simp
    show "1 < unat (textureSlotIndex demo_bound)"
      by (simp add: demo_bound_def assignSlot_slots beginScene_fields)
    show "textureSlots demo_bound 1 = Some (Texture2D 7)"
      by (simp add: demo_bound_def assignSlot_slots beginScene_fields)
  qed
  note th = texture_slot_reuse [OF ne, where s = demo_bound and t = "Texture2D 7"
      and p = "(0, 0, 0)" and sz = "(1, 1)" and c = "(1, 1, 1, 1)" and vp = Identity
      and ?s0.0 = demo_state]
  from th bound have a: "\<exists>k. 1 \<le> k \<and> k < unat (textureSlotIndex demo_bound)
          \<and> textureSlots demo_bound k = Some (Texture2D 7)
          \<and> drawQuadTex (0, 0, 0) (1, 1) (Texture2D 7) (1, 1, 1, 1) demo_bound
               = Inr (pushQuad (0, 0, 0) (1, 1) (1, 1, 1, 1) k demo_bound)"
    by blast
  from th have "\<forall>m \<le> length (replicate 64 demo_quad). \<exists>sm.
      run (BeginScene Identity # map (\<lambda>q. texCall (Texture2D 7, q))
             (take m (replicate 64 demo_quad))) demo_state = Inr sm
      \<and> textureSlotIndex sm \<le> 2
      \<and> quadDraws (device sm) = quadDraws (device demo_state)"
    by blast
  moreover have "64 \<le> length (replicate 64 demo_quad)"
    by simp
  ultimately have b: "\<exists>sm. run (BeginScene Identity
                   # map (\<lambda>q. texCall (Texture2D 7, q)) (take 64 (replicate 64 demo_quad)))
               demo_state = Inr sm
          \<and> textureSlotIndex sm \<le> 2"
    by blast
  from th obtain s' where
    "run (BeginScene Identity
           # map (\<lambda>q. texCall (Texture2D 7, q)) (replicate 64 demo_quad) @ [EndScene])
       demo_state = Inr s'"
    "quadDraws (device s') = quadDraws (device demo_state) + 1"
    "stats_drawCalls s' = 1"
    "stats_quadCount s' = length (replicate 64 demo_quad)"
    "textureSlotIndex s' = 2"
    by blast
  then have c: "\<exists>s'. run (BeginScene Identity
                   # map (\<lambda>q. texCall (Texture2D 7, q)) (replicate 64 demo_quad) @ [EndScene])
               demo_state = Inr s'
          \<and> quadDraws (device s') = quadDraws (device demo_state) + 1
          \<and> stats_drawCalls s' = 1
          \<and> stats_quadCount s' = 64
          \<and> textureSlotIndex s' = 2"
    by (intro exI [of _ s']) simp
  from ne a b c show ?thesis
    by (intro conjI)
qed

section \<open>Properties of the renderer: slot 0\<close>

lemma startBatch_slots:
  "textureSlots (startBatch s) = textureSlots s"
  "defaultTexture (startBatch s) = defaultTexture s"
  "textureSlotIndex (startBatch s) = 1"
  by (simp_all add: startBatch_def quad_reset_def line_reset_def circle_reset_def)

lemma drawLine_slots:
  "textureSlots (drawLine p1 p2 c s) = textureSlots s"
  "defaultTexture (drawLine p1 p2 c s) = defaultTexture s"
  "textureSlotIndex (drawLine p1 p2 c s) = textureSlotIndex s"
  by (simp_all add: drawLine_def Let_def nextLineBatch_def line_reset_def flushLine_frame)

lemma drawCircle_slots:
  "textureSlots (drawCircle tr th fd c s) = textureSlots s"
  "defaultTexture (drawCircle tr th fd c s) = defaultTexture s"
  "textureSlotIndex (drawCircle tr th fd c s) = textureSlotIndex s"
  by (simp_all add: drawCircle_def)

lemma addLight_slots:
  "textureSlots (addLight l s) = textureSlots s"
  "defaultTexture (addLight l s) = defaultTexture s"
  "textureSlotIndex (addLight l s) = textureSlotIndex s"
  by (simp_all add: addLight_def)

lemma drawQuad_slots:
  "textureSlots (drawQuad p sz c s) = textureSlots s"
  "defaultTexture (drawQuad p sz c s) = defaultTexture s"
  "textureSlotIndex (drawQuad p sz c s)
     = (if length (quad_transforms s) = maxQuad then 1 else textureSlotIndex s)"
  by (simp_all add: drawQuad_def pushQuad_fields nextQuadBatch_fields)

lemma assignSlot_keeps_slot0:
  "1 \<le> unat (textureSlotIndex s) \<Longrightarrow> textureSlots (assignSlot t s) 0 = textureSlots s 0"
  by (simp add: assignSlot_slots)

lemma drawQuadTex_slot0:
  assumes r: "drawQuadTex p sz t c s = Inr s'"
    and lo: "1 \<le> unat (textureSlotIndex s)" and hi: "unat (textureSlotIndex s) \<le> 32"
  shows "textureSlots s' 0 = textureSlots s 0 \<and> defaultTexture s' = defaultTexture s
       \<and> 1 \<le> unat (textureSlotIndex s') \<and> unat (textureSlotIndex s') \<le> 32"
proof (cases "findTexture (textureSlots s) 1 (textureSlotIndex s) t = 0")
  case False
  with r have "s' = pushQuad p sz c (findTexture (textureSlots s) 1 (textureSlotIndex s) t) s"
    by (simp add: drawQuadTex_Inr)
  with lo hi show ?thesis
    by (simp add: pushQuad_fields)
next
  case True
  show ?thesis
  proof (cases "textureSlotIndex s = maxTextureSlots")
    case full: True
    with r True have "s' = pushQuad p sz c 1 (assignSlot t (nextQuadBatch s))"
      by (simp add: drawQuadTex_Inr nextQuadBatch_fields)
    then show ?thesis
      by (simp add: pushQuad_fields assignSlot_slots assignSlot_frame nextQuadBatch_fields)
  next
    case False
    with hi have room: "unat (textureSlotIndex s) < 32"
      using unat_32_eq [of "textureSlotIndex s"] by (cases "unat (textureSlotIndex s) = 32") auto
    from r True False
    have "s' = pushQuad p sz c (unat (textureSlotIndex s)) (assignSlot t s)"
      by (simp add: drawQuadTex_Inr)
    with lo room unat_Suc_32 [OF room] show ?thesis
      by (simp add: pushQuad_fields assignSlot_slots assignSlot_frame)
  qed
qed

lemma call_slot0:
  assumes "call c s = Inr s'"
    and "1 \<le> unat (textureSlotIndex s)" and "unat (textureSlotIndex s) \<le> 32"
  shows "textureSlots s' 0 = textureSlots s 0 \<and> defaultTexture s' = defaultTexture s
       \<and> 1 \<le> unat (textureSlotIndex s') \<and> unat (textureSlotIndex s') \<le> 32"
proof (cases c)
  case (DrawQuadTex p sz t col)
  with assms show ?thesis
    using drawQuadTex_slot0 [of p sz t col s s'] by simp
qed (use assms in \<open>auto simp: beginScene_fields endScene_def flush_frame startBatch_slots
      nextBatch_def deinit_def enableLighting_def addLight_slots drawQuad_slots
      drawLine_slots drawCircle_slots\<close>)

lemma run_slot0:
  assumes "1 \<le> unat (textureSlotIndex s)" and "unat (textureSlotIndex s) \<le> 32"
  shows "\<exists>s'. run cs s = Inr s'
            \<and> textureSlots s' 0 = textureSlots s 0 \<and> defaultTexture s' = defaultTexture s
            \<and> 1 \<le> unat (textureSlotIndex s') \<and> unat (textureSlotIndex s') \<le> 32"
  using assms
proof (induction cs arbitrary: s)
  case Nil
  then show ?case by simp
next
  case (Cons c cs)
  from call_total obtain s1 where s1: "call c s = Inr s1" by blast
  from call_slot0 [OF s1 Cons.prems]
  have inv: "textureSlots s1 0 = textureSlots s 0" "defaultTexture s1 = defaultTexture s"
    "1 \<le> unat (textureSlotIndex s1)" "unat (textureSlotIndex s1) \<le> 32"
    by simp_all
  from Cons.IH [OF inv(3,4)] obtain s' where
    "run cs s1 = Inr s'" "textureSlots s' 0 = textureSlots s1 0"
    "defaultTexture s' = defaultTexture s1"
    "1 \<le> unat (textureSlotIndex s')" "unat (textureSlotIndex s') \<le> 32"
    by blast
  with s1 inv show ?case by simp
qed

lemma quadCorners_textureIndex: "map qv_textureIndex (quadCorners s c k) = [k, k, k, k]"
proof -
  have "map qv_textureIndex (quadCorners s c k) = replicate (length [0..<4 :: nat]) k"
    unfolding quadCorners_def map_map o_def by (simp only: QuadVertex.simps map_replicate_const)
  also have "\<dots> = [k, k, k, k]"
    by (simp add: eval_nat_numeral)
  finally show ?thesis .
qed

lemma init_fields:
  "textureSlots (init created s) 0 = Some created"
  "defaultTexture (init created s) = Some created"
  "textureSlotIndex (init created s) = textureSlotIndex s"
  "device (init created s)
     = device s @ [QuadProgramUse] @ initSamplers @ [TextureSetData created 0xFFFFFFFF]"
  by (simp_all add: init_def initQuad_def initLine_def initCircle_def Let_def)

lemma initSamplers_facts:
  "length initSamplers = 32"
  "initSamplers ! 0 = QuadSetInt ''textures[0]'' 0"
  "initSamplers ! 31 = QuadSetInt ''textures[31]'' 31"
  "filter isDraw initSamplers = []"
  by (simp_all add: initSamplers_def maxTextureSlots_def filter_map o_def to_string.simps)

lemma s_renderer_fields:
  "textureSlotIndex s_renderer = 1" "device s_renderer = []"
  by (simp_all add: s_renderer_def)

text \<open>
  Claim C7. After \<^verbatim>\<open>init\<close>, whatever calls follow, every one of them returns and
  slot 0 holds the default texture created by \<^verbatim>\<open>init\<close> (the one that received the
  white pixel \<^verbatim>\<open>0xFFFFFFFF\<close>, the last command of the trace of \<^verbatim>\<open>init\<close>, after the
  program is bound and the 32 samplers are set), with the slot index staying between 1 and
  \<open>maxTextureSlots\<close>. The batch rollover and the scene reset write no slot, and a slot
  assignment writes the slot at the index, which is 1 or more. Every untextured
  \<^verbatim>\<open>drawQuad\<close> appends four vertices of texture index 0.
\<close>

theorem slot0_holds_default_texture:
  "(\<exists>s'. run cs (init created s_renderer) = Inr s'
        \<and> textureSlots s' 0 = Some created \<and> defaultTexture s' = Some created
        \<and> 1 \<le> textureSlotIndex s' \<and> textureSlotIndex s' \<le> maxTextureSlots)
   \<and> device (init created s_renderer)
       = [QuadProgramUse] @ initSamplers @ [TextureSetData created 0xFFFFFFFF]
   \<and> TextureSetData created 0xFFFFFFFF \<in> set (device (init created s_renderer))
   \<and> allDraws (device (init created s_renderer)) = 0
   \<and> textureSlots (nextQuadBatch s) = textureSlots s
   \<and> textureSlots (startBatch s) = textureSlots s
   \<and> textureSlots (beginScene vp s) = textureSlots s
   \<and> (1 \<le> textureSlotIndex s \<longrightarrow> textureSlots (assignSlot t s) 0 = textureSlots s 0)
   \<and> map qv_textureIndex (quad_vertices (drawQuad p sz c s))
       = map qv_textureIndex
           (quad_vertices (if length (quad_transforms s) = maxQuad then nextQuadBatch s else s))
         @ [0, 0, 0, 0]"
proof -
  let ?i = "init created s_renderer"
  have "1 \<le> unat (textureSlotIndex ?i)" "unat (textureSlotIndex ?i) \<le> 32"
    by (simp_all add: init_fields s_renderer_fields)
  from run_slot0 [OF this, of cs] obtain s' where s':
    "run cs ?i = Inr s'" "textureSlots s' 0 = Some created" "defaultTexture s' = Some created"
    "1 \<le> unat (textureSlotIndex s')" "unat (textureSlotIndex s') \<le> 32"
    by (auto simp: init_fields)
  from s'(4,5) have "1 \<le> textureSlotIndex s'" "textureSlotIndex s' \<le> maxTextureSlots"
    by (simp_all add: word_le_nat_alt maxTextureSlots_def)
  with s' have a: "\<exists>s'. run cs ?i = Inr s'
        \<and> textureSlots s' 0 = Some created \<and> defaultTexture s' = Some created
        \<and> 1 \<le> textureSlotIndex s' \<and> textureSlotIndex s' \<le> maxTextureSlots"
    by blast
  have b: "device ?i = [QuadProgramUse] @ initSamplers @ [TextureSetData created 0xFFFFFFFF]"
    by (simp add: init_fields s_renderer_fields)
  then have b2: "TextureSetData created 0xFFFFFFFF \<in> set (device ?i)"
    by simp
  have b3: "allDraws (device ?i) = 0"
    unfolding b by (simp add: allDraws_def initSamplers_facts)
  have c: "1 \<le> textureSlotIndex s \<longrightarrow> textureSlots (assignSlot t s) 0 = textureSlots s 0"
    by (simp add: word_le_nat_alt assignSlot_keeps_slot0)
  have d: "map qv_textureIndex (quad_vertices (drawQuad p sz c s))
       = map qv_textureIndex
           (quad_vertices (if length (quad_transforms s) = maxQuad then nextQuadBatch s else s))
         @ [0, 0, 0, 0]"
    by (simp add: drawQuad_def pushQuad_def quadCorners_textureIndex Let_def)
  have e: "textureSlots (nextQuadBatch s) = textureSlots s"
    "textureSlots (startBatch s) = textureSlots s"
    "textureSlots (beginScene vp s) = textureSlots s"
    by (simp_all add: nextQuadBatch_fields startBatch_slots beginScene_fields)
  from a b b2 b3 e c d show ?thesis
    by (intro conjI)
qed

theorem slot0_holds_default_texture_witness:
  "1 \<le> textureSlotIndex demo_state
   \<and> textureSlots (assignSlot (Texture2D 7) demo_state) 0 = Some (Texture2D 0)
   \<and> (\<exists>s'. run demo_calls (init (Texture2D 0) s_renderer) = Inr s'
          \<and> textureSlots s' 0 = Some (Texture2D 0) \<and> defaultTexture s' = Some (Texture2D 0))
   \<and> length (device (init (Texture2D 0) s_renderer)) = 34
   \<and> device (init (Texture2D 0) s_renderer) ! 1 = QuadSetInt ''textures[0]'' 0
   \<and> device (init (Texture2D 0) s_renderer) ! 32 = QuadSetInt ''textures[31]'' 31
   \<and> device (init (Texture2D 0) s_renderer) ! 33 = TextureSetData (Texture2D 0) 0xFFFFFFFF"
proof -
  have one: "1 \<le> textureSlotIndex demo_state"
    by (simp add: demo_state_def init_fields s_renderer_fields)
  have zero: "textureSlots demo_state 0 = Some (Texture2D 0)"
    by (simp add: demo_state_def init_fields)
  note th = slot0_holds_default_texture [where cs = demo_calls and created = "Texture2D 0"
      and s = demo_state and t = "Texture2D 7"]
  from th one zero have "textureSlots (assignSlot (Texture2D 7) demo_state) 0 = Some (Texture2D 0)"
    by simp
  moreover from th have "\<exists>s'. run demo_calls (init (Texture2D 0) s_renderer) = Inr s'
          \<and> textureSlots s' 0 = Some (Texture2D 0) \<and> defaultTexture s' = Some (Texture2D 0)"
    by blast
  moreover from th
  have dev: "device (init (Texture2D 0) s_renderer)
      = [QuadProgramUse] @ initSamplers @ [TextureSetData (Texture2D 0) 0xFFFFFFFF]"
    by blast
  have "length (device (init (Texture2D 0) s_renderer)) = 34"
    "device (init (Texture2D 0) s_renderer) ! 1 = QuadSetInt ''textures[0]'' 0"
    "device (init (Texture2D 0) s_renderer) ! 32 = QuadSetInt ''textures[31]'' 31"
    "device (init (Texture2D 0) s_renderer) ! 33 = TextureSetData (Texture2D 0) 0xFFFFFFFF"
    unfolding dev by (simp_all add: initSamplers_facts nth_append)
  ultimately show ?thesis
    using one by blast
qed


end
